theory Spec2Isabelle
  imports Main "HOL-Library.Sublist"
begin

section \<open>Values and external modules\<close>

text \<open>
  The program is JavaScript (jirapub.js). Strings are lists of characters; an array
  built with push and joined at the end is a list of strings and its concatenation.
  Every raise of the source is a value of \<open>error\<close>: the two assertions on CR and LF in
  parse_jira_markup, and a property read on \<open>undefined\<close>.
\<close>

datatype error = AssertionError | TypeError

datatype log_entry =
  UrlParseError string
  | CommentCountMismatch

text \<open>
  Node's Url object, as the legacy \<open>url.parse\<close> returns it. A component that is absent
  is \<open>null\<close> in JavaScript and \<open>None\<close> here.
\<close>

record url =
  u_protocol :: "string option"
  u_slashes :: bool
  u_auth :: "string option"
  u_host :: "string option"
  u_port :: "string option"
  u_hostname :: "string option"
  u_hash :: "string option"
  u_search :: "string option"
  u_pathname :: "string option"
  u_path :: "string option"

text \<open>
  The modules jirapub.js requires and whose code is not part of the repository are
  parameters of the model: \<open>mod_ent.encode\<close>, \<open>mod_url.parse\<close> (\<open>None\<close> when it throws)
  and \<open>mod_url.format\<close>.
\<close>

record modules =
  ent_encode :: "string \<Rightarrow> string"
  url_parse :: "string \<Rightarrow> url option"
  url_format :: "url \<Rightarrow> string"

section \<open>fix_url and format_remote_link\<close>

text \<open>String.prototype.trim: white space of the 8-bit range.\<close>

definition js_space :: "char \<Rightarrow> bool" where
  "js_space c = (of_char c \<in> {9, 10, 11, 12, 13, 32, 160 :: nat})"

definition trim :: "string \<Rightarrow> string" where
  "trim s = rev (dropWhile js_space (rev (dropWhile js_space s)))"

record sub =
  sub_h :: string
  sub_m :: string
  sub_p :: string

definition SUBS :: "(string \<times> sub list) list" where
  "SUBS = [(''mo.joyent.com'', [
      \<lparr>sub_h = ''github.com'', sub_m = ''/illumos-joyent'', sub_p = ''/joyent/illumos-joyent''\<rparr>,
      \<lparr>sub_h = ''github.com'', sub_m = ''/smartos-live'', sub_p = ''/joyent/smartos-live''\<rparr>,
      \<lparr>sub_h = ''github.com'', sub_m = ''/illumos-live'', sub_p = ''/joyent/smartos-live''\<rparr>,
      \<lparr>sub_h = ''github.com'', sub_m = ''/illumos-extra'', sub_p = ''/joyent/illumos-extra''\<rparr>,
      \<lparr>sub_h = ''github.com'', sub_m = ''/sdc-napi'', sub_p = ''/joyent/sdc-napi''\<rparr>])]"

text \<open>
  \<open>SUBS[url.hostname]\<close> also finds what the object literal inherits from
  Object.prototype. An inherited function of one or more parameters is truthy and has a
  positive \<open>length\<close>, so the loop reads \<open>s.m\<close> of \<open>undefined\<close> and raises; every other
  inherited property runs the loop zero times, as a missing entry does.
\<close>

definition inherited_raising :: "string list" where
  "inherited_raising = [''constructor'', ''hasOwnProperty'', ''isPrototypeOf'',
     ''propertyIsEnumerable'', ''__defineGetter__'', ''__defineSetter__'',
     ''__lookupGetter__'', ''__lookupSetter__'']"

text \<open>
  The loop over \<open>SUBS[url.hostname]\<close>: \<open>new RegExp('^' + s.m)\<close> tests for the prefix
  \<open>s.m\<close> (a null pathname is tested as the text \<open>null\<close> and never matches), and
  \<open>replace\<close> puts \<open>s.p\<close> in its place.
\<close>

fun subs_loop :: "modules \<Rightarrow> url \<Rightarrow> string \<Rightarrow> sub list \<Rightarrow> string" where
  "subs_loop M u out [] = ent_encode M out"
| "subs_loop M u out (s # ss) =
     (case u_pathname u of
        None \<Rightarrow> subs_loop M u out ss
      | Some pn \<Rightarrow>
          if take (length (sub_m s)) pn = sub_m s
          then (let pn' = sub_p s @ drop (length (sub_m s)) pn in
                ent_encode M (url_format M
                  (u\<lparr>u_hostname := Some (sub_h s), u_host := Some (sub_h s),
                     u_path := Some pn', u_pathname := Some pn'\<rparr>)))
          else subs_loop M u out ss)"

definition fix_url :: "modules \<Rightarrow> string \<Rightarrow> error + (log_entry list \<times> string)" where
  "fix_url M input =
     (let out = trim input in
      case url_parse M out of
        None \<Rightarrow> Inr ([UrlParseError out], out)
      | Some u \<Rightarrow>
          (case u_hostname u of
             None \<Rightarrow> Inr ([], ent_encode M out)
           | Some h \<Rightarrow>
               if h \<in> set inherited_raising then Inl TypeError
               else (case map_of SUBS h of
                       None \<Rightarrow> Inr ([], ent_encode M out)
                     | Some ss \<Rightarrow> Inr ([], subs_loop M u out ss))))"

definition anchor_open :: string where
  "anchor_open = ''<a rel='' @ [CHR 0x22] @ ''noopener noreferrer'' @ [CHR 0x22] @
     '' target='' @ [CHR 0x22] @ ''_blank'' @ [CHR 0x22] @ '' href='' @ [CHR 0x22]"

definition format_remote_link ::
  "modules \<Rightarrow> string \<Rightarrow> string \<Rightarrow> error + (log_entry list \<times> string)" where
  "format_remote_link M link txt =
     (case fix_url M link of
        Inl e \<Rightarrow> Inl e
      | Inr (lg, href) \<Rightarrow> Inr (lg, anchor_open @ href @ [CHR 0x22] @ ''>'' @ txt @ ''</a>''))"

section \<open>parse_jira_markup\<close>

datatype fmt = BOLD | ITALIC | CODE

datatype pstate = LEADING_SPACES | TEXT | LINK_TITLE | LINK_USER | LINK_ATTACHMENT | LINK_URL

text \<open>
  The parser state the caller keeps between lines. \<open>ps_list\<close> is \<open>false\<close>, \<open>null\<close>,
  \<open>'ul'\<close> or \<open>'ol'\<close>: only its truthiness and its text are read, so the two falsy values
  are \<open>None\<close>.
\<close>

record parser_state =
  ps_list :: "string option"
  ps_heading :: "string option"

text \<open>The variables of parse_jira_markup that the loop updates, and the log.\<close>

record locals =
  l_text :: string
  l_formats :: "fmt list"
  l_out :: "string list"
  l_state :: pstate
  l_link_title :: string
  l_link_url :: string
  l_leading_spaces :: nat
  l_ps :: parser_state
  l_log :: "log_entry list"

definition HEADING_LEVELS :: "string list" where
  "HEADING_LEVELS = [''1'', ''2'', ''3'', ''4'', ''5'', ''6'']"

definition prefmtok :: "char option \<Rightarrow> bool" where
  "prefmtok x =
     (case x of
        None \<Rightarrow> True
      | Some c \<Rightarrow>
          (let cc = (of_char c :: nat) in
           if (cc \<ge> of_char (CHR ''A'') \<and> cc \<le> of_char (CHR ''Z'')) \<or>
              (cc \<ge> of_char (CHR ''a'') \<and> cc \<le> of_char (CHR ''z''))
           then False else True))"

definition repeat_char :: "char \<Rightarrow> nat \<Rightarrow> string" where
  "repeat_char c n = replicate n c"

definition char_at :: "string \<Rightarrow> nat \<Rightarrow> char option" where
  "char_at s i = (if i < length s then Some (s ! i) else None)"

definition commit_text :: "modules \<Rightarrow> locals \<Rightarrow> locals" where
  "commit_text M l =
     (if l_text l \<noteq> [] then l\<lparr>l_out := l_out l @ [ent_encode M (l_text l)], l_text := []\<rparr>
      else l)"

definition push :: "string \<Rightarrow> locals \<Rightarrow> locals" where
  "push s l = l\<lparr>l_out := l_out l @ [s]\<rparr>"

text \<open>\<open>formats[0]\<close>: the first element pushed, \<open>undefined\<close> on the empty array.\<close>

definition formats0 :: "locals \<Rightarrow> fmt option" where
  "formats0 l = (case l_formats l of [] \<Rightarrow> None | f # _ \<Rightarrow> Some f)"

definition formats_push :: "fmt \<Rightarrow> locals \<Rightarrow> locals" where
  "formats_push f l = l\<lparr>l_formats := l_formats l @ [f]\<rparr>"

definition formats_pop :: "locals \<Rightarrow> locals" where
  "formats_pop l = l\<lparr>l_formats := butlast (l_formats l)\<rparr>"

text \<open>
  The statements after the \<open>switch\<close> (lines 905 to 957), from the last to the first.
  Each returns the variables and the index of the next iteration (the loop's \<open>i++\<close>
  included). \<open>text += cc\<close> with no next character appends the text \<open>undefined\<close>.
\<close>

definition fmt_code :: "modules \<Rightarrow> string \<Rightarrow> nat \<Rightarrow> locals \<Rightarrow> locals \<times> nat" where
  "fmt_code M desc i l =
     (let c = desc ! i; cc = char_at desc (i + 1) in
      if c = CHR ''{'' \<and> cc = Some (CHR ''{'')
      then (push ''<code>'' (commit_text M (formats_push CODE l)), i + 2)
      else if c = CHR 0x5C \<and> formats0 l = Some CODE
      then (l\<lparr>l_text := l_text l @ (case cc of None \<Rightarrow> ''undefined'' | Some x \<Rightarrow> [x])\<rparr>, i + 2)
      else if c = CHR ''}'' \<and> cc = Some (CHR ''}'') \<and> formats0 l = Some CODE
      then (push ''</code>'' (commit_text M (formats_pop l)), i + 2)
      else (l\<lparr>l_text := l_text l @ [c]\<rparr>, i + 1))"

definition fmt_italic :: "modules \<Rightarrow> string \<Rightarrow> nat \<Rightarrow> locals \<Rightarrow> locals \<times> nat" where
  "fmt_italic M desc i l =
     (let c = desc ! i; pc = (if i > 0 then Some (desc ! (i - 1)) else None) in
      if c = CHR ''_'' \<and> formats0 l \<noteq> Some CODE
      then (let l1 = commit_text M l in
            if formats0 l1 = Some ITALIC then (push ''</i>'' (formats_pop l1), i + 1)
            else if prefmtok pc then (push ''<i>'' (formats_push ITALIC l1), i + 1)
            else fmt_code M desc i l1)
      else fmt_code M desc i l)"

definition fmt_bold :: "modules \<Rightarrow> string \<Rightarrow> nat \<Rightarrow> locals \<Rightarrow> locals \<times> nat" where
  "fmt_bold M desc i l =
     (let c = desc ! i; pc = (if i > 0 then Some (desc ! (i - 1)) else None) in
      if c = CHR ''*'' \<and> formats0 l \<noteq> Some CODE
      then (let l1 = commit_text M l in
            if formats0 l1 = Some BOLD then (push ''</b>'' (formats_pop l1), i + 1)
            else if prefmtok pc then (push ''<b>'' (formats_push BOLD l1), i + 1)
            else fmt_italic M desc i l1)
      else fmt_italic M desc i l)"

text \<open>The list items of the LEADING_SPACES case (lines 780 to 800).\<close>

definition list_item :: "modules \<Rightarrow> string \<Rightarrow> locals \<Rightarrow> locals" where
  "list_item M kind l =
     (let l1 = (if ps_list (l_ps l) \<noteq> None then push ''</li>'' l
                else push (''<'' @ kind @ ''>'') l);
          l2 = l1\<lparr>l_ps := (l_ps l1)\<lparr>ps_list := Some kind\<rparr>\<rparr>
      in push ''<li>'' (commit_text M l2))"

text \<open>
  One iteration of the \<open>for\<close> loop at index \<open>i < desc.length\<close>: the two assertions, the
  \<open>switch\<close> on the state, and the statements after it. The result is the variables and
  the index of the next iteration. LEADING_SPACES winds back by one character, so the
  next index is \<open>i\<close> again; the heading adds three and the loop one more.
\<close>

definition step :: "modules \<Rightarrow> string \<Rightarrow> nat \<Rightarrow> locals \<Rightarrow> error + (locals \<times> nat)" where
  "step M desc i l =
     (let c = desc ! i; cc = char_at desc (i + 1); ccc = char_at desc (i + 2) in
      if c = CHR 0x0A \<or> c = CHR 0x0D then Inl AssertionError
      else case l_state l of
        LEADING_SPACES \<Rightarrow>
          if c = CHR '' '' then Inr (l\<lparr>l_leading_spaces := l_leading_spaces l + 1\<rparr>, i + 1)
          else if (c = CHR ''*'' \<or> c = CHR ''-'') \<and> cc = Some (CHR '' '')
          then Inr (list_item M ''ul'' l, i + 1)
          else if c = CHR ''#'' \<and> cc = Some (CHR '' '')
          then Inr (list_item M ''ol'' l, i + 1)
          else Inr (l\<lparr>l_text := l_text l @ repeat_char (CHR '' '') (l_leading_spaces l),
                     l_state := TEXT\<rparr>, i)
      | TEXT \<Rightarrow>
          if ps_list (l_ps l) \<noteq> None \<and> i = 0 \<and> c \<noteq> CHR '' ''
          then (let l1 = push (''</li></'' @ the (ps_list (l_ps l)) @ ''>'') (commit_text M l);
                    l2 = l1\<lparr>l_ps := (l_ps l1)\<lparr>ps_list := None\<rparr>\<rparr>
                in Inr (fmt_bold M desc i l2))
          else if i = 0 \<and> c = CHR ''h'' \<and> ccc = Some (CHR ''.'') \<and>
                  (case cc of None \<Rightarrow> False | Some d \<Rightarrow> [d] \<in> set HEADING_LEVELS)
          then (let h = ''h'' @ [the cc];
                    l1 = l\<lparr>l_ps := (l_ps l)\<lparr>ps_heading := Some h\<rparr>\<rparr>
                in Inr (push (''<'' @ h @ ''>'') (commit_text M l1), i + 4))
          else if c = CHR ''[''
          then (let l1 = (commit_text M l)\<lparr>l_link_title := [], l_link_url := []\<rparr> in
                if cc = Some (CHR ''~'') then Inr (l1\<lparr>l_state := LINK_USER\<rparr>, i + 2)
                else if cc = Some (CHR ''^'') then Inr (l1\<lparr>l_state := LINK_ATTACHMENT\<rparr>, i + 2)
                else Inr (l1\<lparr>l_state := LINK_TITLE\<rparr>, i + 1))
          else Inr (fmt_bold M desc i l)
      | LINK_TITLE \<Rightarrow>
          if c = CHR ''|'' then Inr (l\<lparr>l_state := LINK_URL\<rparr>, i + 1)
          else if c = CHR '']''
          then (case format_remote_link M (l_link_title l) (ent_encode M (l_link_title l)) of
                  Inl e \<Rightarrow> Inl e
                | Inr (lg, a) \<Rightarrow> Inr ((push a l)\<lparr>l_state := TEXT, l_log := l_log l @ lg\<rparr>, i + 1))
          else Inr (l\<lparr>l_link_title := l_link_title l @ [c]\<rparr>, i + 1)
      | LINK_USER \<Rightarrow>
          if c = CHR '']''
          then Inr ((push ''</b>'' (push (ent_encode M (l_link_title l)) (push ''<b>@'' l)))
                      \<lparr>l_state := TEXT\<rparr>, i + 1)
          else Inr (l\<lparr>l_link_title := l_link_title l @ [c]\<rparr>, i + 1)
      | LINK_ATTACHMENT \<Rightarrow>
          if c = CHR '']''
          then Inr ((push '']</b>'' (push (ent_encode M (l_link_title l))
                       (push ''<b>[attachment '' l)))\<lparr>l_state := TEXT\<rparr>, i + 1)
          else Inr (l\<lparr>l_link_title := l_link_title l @ [c]\<rparr>, i + 1)
      | LINK_URL \<Rightarrow>
          if c = CHR '']''
          then (case format_remote_link M (l_link_url l) (ent_encode M (l_link_title l)) of
                  Inl e \<Rightarrow> Inl e
                | Inr (lg, a) \<Rightarrow> Inr ((push a l)\<lparr>l_state := TEXT, l_log := l_log l @ lg\<rparr>, i + 1))
          else Inr (l\<lparr>l_link_url := l_link_url l @ [c]\<rparr>, i + 1))"

text \<open>
  The \<open>for\<close> loop. Every iteration moves the index forward, except the one that leaves
  LEADING_SPACES for TEXT at the same index.
\<close>

function loop :: "modules \<Rightarrow> string \<Rightarrow> nat \<Rightarrow> locals \<Rightarrow> error + locals" where
  "loop M desc i l =
     (if i < length desc
      then (case step M desc i l of
              Inl e \<Rightarrow> Inl e
            | Inr (l', i') \<Rightarrow> loop M desc i' l')
      else Inr l)"
  by pat_completeness auto
termination
proof (relation "measure (\<lambda>(M, desc, i, l).
         2 * (length desc - i) + (if l_state l = LEADING_SPACES then 1 else 0))")
  show "wf (measure (\<lambda>(M, desc, i, l).
         2 * (length desc - i) + (if l_state l = LEADING_SPACES then 1 else 0)))"
    by simp
next
  fix M :: modules and desc :: string and i :: nat and l :: locals
    and x2 :: "locals \<times> nat" and l' :: locals and i' :: nat
  assume lt: "i < length desc" and st: "step M desc i l = Inr x2" and x2: "(l', i') = x2"
  have "i < i' \<or> (i' = i \<and> l_state l = LEADING_SPACES \<and> l_state l' = TEXT)"
    using st x2 [symmetric]
    by (auto simp: step_def fmt_bold_def fmt_italic_def fmt_code_def Let_def
          split: if_splits pstate.splits sum.splits prod.splits)
  then show "((M, desc, i', l'), (M, desc, i, l)) \<in> measure (\<lambda>(M, desc, i, l).
         2 * (length desc - i) + (if l_state l = LEADING_SPACES then 1 else 0))"
    using lt by auto
qed

definition init_locals :: "parser_state \<Rightarrow> locals" where
  "init_locals ps =
     \<lparr>l_text = [], l_formats = [], l_out = [], l_state = LEADING_SPACES,
      l_link_title = [], l_link_url = [], l_leading_spaces = 0,
      l_ps = ps\<lparr>ps_heading := None\<rparr>, l_log = []\<rparr>"

text \<open>
  parse_jira_markup returns the joined output; the caller's parser state is updated in
  place, and is returned here with the log.
\<close>

definition finish :: "modules \<Rightarrow> locals \<Rightarrow> string \<times> parser_state \<times> log_entry list" where
  "finish M l =
     (let l1 = commit_text M l;
          l2 = (case ps_heading (l_ps l1) of
                  None \<Rightarrow> l1
                | Some h \<Rightarrow> push (''</'' @ h @ ''>'') l1)
      in (concat (l_out l2), l_ps l2, l_log l2))"

definition parse_jira_markup ::
  "modules \<Rightarrow> string \<Rightarrow> parser_state \<Rightarrow> error + (string \<times> parser_state \<times> log_entry list)" where
  "parse_jira_markup M desc ps =
     (case loop M desc 0 (init_locals ps) of
        Inl e \<Rightarrow> Inl e
      | Inr l \<Rightarrow> Inr (finish M l))"

text \<open>
  Two notions used to state what the parser does on a heading line: the variables right
  after the marker \<open>h<d>.\<close> has been read at the start of a line, and the characters
  that the TEXT state appends to the pending text whatever follows them, as long as no
  format is open.
\<close>

definition heading_open :: "parser_state \<Rightarrow> char \<Rightarrow> locals" where
  "heading_open ps d = (init_locals ps)\<lparr>l_state := TEXT, l_out := [''<h'' @ [d] @ ''>''],
      l_ps := ps\<lparr>ps_heading := Some (''h'' @ [d])\<rparr>\<rparr>"

definition plain_char :: "char \<Rightarrow> bool" where
  "plain_char c = (c \<notin> {CHR ''['', CHR ''*'', CHR ''_'', CHR ''{'', CHR 0x0A, CHR 0x0D})"

text \<open>
  The variables and indices that the loop of parse_jira_markup goes through on a line
  \<open>desc\<close>, started with the parser state \<open>ps\<close>.
\<close>

inductive reach :: "modules \<Rightarrow> string \<Rightarrow> parser_state \<Rightarrow> nat \<Rightarrow> locals \<Rightarrow> bool"
  for M :: modules and desc :: string and ps :: parser_state where
  reach_init: "reach M desc ps 0 (init_locals ps)"
| reach_step: "reach M desc ps i l \<Longrightarrow> i < length desc \<Longrightarrow> step M desc i l = Inr (l', i') \<Longrightarrow>
     reach M desc ps i' l'"

section \<open>format_issue_assemble\<close>

text \<open>
  JavaScript values as JSON delivers them, and \<open>undefined\<close>. An object is the list of
  its properties in insertion order.
\<close>

datatype jsval =
  JUndefined
  | JNull
  | JBool bool
  | JNum int
  | JStr string
  | JArr "jsval list"
  | JObj "(string \<times> jsval) list"

type_synonym obj = "(string \<times> jsval) list"

text \<open>What \<open>if (v)\<close> tests.\<close>

fun truthy :: "jsval \<Rightarrow> bool" where
  "truthy JUndefined = False"
| "truthy JNull = False"
| "truthy (JBool b) = b"
| "truthy (JNum n) = (n \<noteq> 0)"
| "truthy (JStr s) = (s \<noteq> [])"
| "truthy (JArr xs) = True"
| "truthy (JObj ps) = True"

text \<open>\<open>a !== b\<close> is \<open>\<not> strict_eq a b\<close>: two parsed arrays or objects are never identical.\<close>

fun strict_eq :: "jsval \<Rightarrow> jsval \<Rightarrow> bool" where
  "strict_eq (JArr xs) b = False"
| "strict_eq (JObj ps) b = False"
| "strict_eq a b = (a = b)"

text \<open>
  Reading and writing a property. \<open>jget\<close> reads a property of a value the source has
  found truthy: a string, a number, a boolean or an array has none of the names the
  source reads.
\<close>

definition get_prop :: "obj \<Rightarrow> string \<Rightarrow> jsval" where
  "get_prop ob k = (case map_of ob k of None \<Rightarrow> JUndefined | Some v \<Rightarrow> v)"

definition jget :: "jsval \<Rightarrow> string \<Rightarrow> jsval" where
  "jget v k = (case v of JObj ob \<Rightarrow> get_prop ob k | _ \<Rightarrow> JUndefined)"

fun set_prop :: "string \<Rightarrow> jsval \<Rightarrow> obj \<Rightarrow> obj" where
  "set_prop k v [] = [(k, v)]"
| "set_prop k v ((k', v') # ps) =
     (if k' = k then (k, v) # ps else (k', v') # set_prop k v ps)"

text \<open>Object.keys.\<close>

definition obj_keys :: "jsval \<Rightarrow> string list" where
  "obj_keys v = (case v of JObj ob \<Rightarrow> map fst ob | _ \<Rightarrow> [])"

text \<open>
  The raw issue of the backend. The properties of \<open>issue.fields\<close> that the source reads
  by name are \<open>f_props\<close>; those it iterates over are arrays when present, and
  \<open>issue.fields.labels\<close> is an array of strings (handle_issue asserts it).
\<close>

record endpoint =
  ep_id :: jsval
  ep_key :: string
  ep_fields :: obj

record issue_link =
  il_id :: jsval
  il_type :: obj
  il_outwardIssue :: "endpoint option"
  il_inwardIssue :: "endpoint option"

record comment_container =
  cc_maxResults :: jsval
  cc_total :: jsval
  cc_comments :: "obj list"

record raw_fields =
  f_props :: obj
  f_fixVersions :: "obj list option"
  f_issuelinks :: "issue_link list option"
  f_labels :: "string list"
  f_comment :: "comment_container option"

record raw_issue =
  i_id :: jsval
  i_key :: jsval
  i_fields :: raw_fields

record remote_link =
  rl_id :: jsval
  rl_object :: obj

text \<open>The globals read by the formatter: CONFIG.label, ALLOWED_LABELS and UNRESTRICTED.\<close>

record globals =
  CONFIG_label :: string
  ALLOWED_LABELS :: "string list"
  UNRESTRICTED :: bool

definition ISSUE_OBJECT_KEYS :: "string list" where
  "ISSUE_OBJECT_KEYS = [''id'', ''name'', ''description'', ''key'', ''emailAddress'',
     ''displayName'']"

definition RELEASE_OBJECT_KEYS :: "string list" where
  "RELEASE_OBJECT_KEYS = [''id'', ''name'', ''archived'', ''released'', ''releaseDate'']"

definition is_allowed_label :: "globals \<Rightarrow> string \<Rightarrow> bool" where
  "is_allowed_label G label = (label \<in> set (ALLOWED_LABELS G))"

text \<open>The pattern \<open>/^([A-Z]+)-([0-9]+)/\<close> of allow_issue.\<close>

definition is_upper :: "char \<Rightarrow> bool" where
  "is_upper c = (65 \<le> (of_char c :: nat) \<and> (of_char c :: nat) \<le> 90)"

definition is_digit :: "char \<Rightarrow> bool" where
  "is_digit c = (48 \<le> (of_char c :: nat) \<and> (of_char c :: nat) \<le> 57)"

definition key_match :: "string \<Rightarrow> bool" where
  "key_match key =
     (takeWhile is_upper key \<noteq> [] \<and>
      (case dropWhile is_upper key of
         c # d # _ \<Rightarrow> c = CHR ''-'' \<and> is_digit d
       | _ \<Rightarrow> False))"

text \<open>
  \<open>other_issues\<close> maps a key to the issue fetched for it; \<open>null\<close> and a missing key are
  both falsy and are \<open>None\<close>.
\<close>

definition allow_issue :: "globals \<Rightarrow> string \<Rightarrow> (string \<Rightarrow> raw_issue option) \<Rightarrow> bool" where
  "allow_issue G key other_issues =
     (if \<not> key_match key then False
      else case other_issues key of
        None \<Rightarrow> False
      | Some other \<Rightarrow>
          if \<not> UNRESTRICTED G \<and> CONFIG_label G \<notin> set (f_labels (i_fields other))
          then False else True)"

text \<open>The \<open>forEach\<close> over an allowlist of keys, in copy_obj and for the fix versions.\<close>

fun copy_keys :: "string list \<Rightarrow> jsval \<Rightarrow> obj \<Rightarrow> obj" where
  "copy_keys [] src t = t"
| "copy_keys (k # ks) src t =
     copy_keys ks src (if truthy (jget src k) then set_prop k (jget src k) t else t)"

definition copy_obj :: "obj \<Rightarrow> string \<Rightarrow> obj \<Rightarrow> obj" where
  "copy_obj props fname out_fields =
     (if \<not> truthy (get_prop props fname) then out_fields
      else set_prop fname (JObj (copy_keys ISSUE_OBJECT_KEYS (get_prop props fname) []))
             out_fields)"

definition copy_simple :: "obj \<Rightarrow> string \<Rightarrow> obj \<Rightarrow> obj" where
  "copy_simple props fname out_fields =
     (if truthy (get_prop props fname) then set_prop fname (get_prop props fname) out_fields
      else out_fields)"

definition copy_author :: "string \<Rightarrow> obj \<Rightarrow> obj \<Rightarrow> obj" where
  "copy_author fname cfrom cto =
     (if \<not> truthy (get_prop cfrom fname) then cto
      else set_prop fname
             (JObj [(''name'', jget (get_prop cfrom fname) ''name''),
                    (''key'', jget (get_prop cfrom fname) ''key''),
                    (''emailAddress'', jget (get_prop cfrom fname) ''emailAddress''),
                    (''displayName'', jget (get_prop cfrom fname) ''displayName'')])
             cto)"

text \<open>One endpoint of a link as it is copied (lines 1414 to 1421 and 1427 to 1434).\<close>

definition copy_endpoint :: "endpoint \<Rightarrow> jsval" where
  "copy_endpoint ep =
     JObj [(''id'', ep_id ep), (''key'', JStr (ep_key ep)),
           (''fields'', JObj [(''summary'', get_prop (ep_fields ep) ''summary'')])]"

text \<open>The body of the loop over the issue links: \<open>push\<close> and \<open>ilo\<close>.\<close>

definition link_body ::
  "globals \<Rightarrow> (string \<Rightarrow> raw_issue option) \<Rightarrow> issue_link \<Rightarrow> bool \<times> obj" where
  "link_body G other_issues il =
     (let ilo = [(''id'', il_id il),
                 (''type'', JObj [(''id'', get_prop (il_type il) ''id''),
                                  (''name'', get_prop (il_type il) ''name''),
                                  (''inward'', get_prop (il_type il) ''inward''),
                                  (''outward'', get_prop (il_type il) ''outward'')])];
          push0 = False;
          (push1, ilo1) =
            (case il_outwardIssue il of
               None \<Rightarrow> (push0, ilo)
             | Some ep \<Rightarrow>
                 if allow_issue G (ep_key ep) other_issues
                 then (True, set_prop ''outwardIssue'' (copy_endpoint ep) ilo)
                 else (push0, ilo));
          (push2, ilo2) =
            (case il_inwardIssue il of
               None \<Rightarrow> (push1, ilo1)
             | Some ep \<Rightarrow>
                 if allow_issue G (ep_key ep) other_issues
                 then (True, set_prop ''inwardIssue'' (copy_endpoint ep) ilo1)
                 else (push1, ilo1))
      in (push2, ilo2))"

fun links_loop ::
  "globals \<Rightarrow> (string \<Rightarrow> raw_issue option) \<Rightarrow> issue_link list \<Rightarrow> jsval list \<Rightarrow> jsval list" where
  "links_loop G other_issues [] links = links"
| "links_loop G other_issues (il # ils) links =
     (case link_body G other_issues il of
        (True, ilo) \<Rightarrow> links_loop G other_issues ils (links @ [JObj ilo])
      | (False, ilo) \<Rightarrow> links_loop G other_issues ils links)"

text \<open>The comment container under construction, and the loop over the comments.\<close>

record cout =
  co_maxResults :: int
  co_total :: int
  co_startAt :: int
  co_comments :: "jsval list"

text \<open>The comment as it is copied (lines 1486 to 1494).\<close>

definition copy_comment :: "obj \<Rightarrow> jsval" where
  "copy_comment com =
     (let outcom = [(''id'', get_prop com ''id''),
                    (''created'', get_prop com ''created''),
                    (''updated'', get_prop com ''updated''),
                    (''body'', get_prop com ''body'')];
          outcom1 = copy_author ''author'' com outcom;
          outcom2 = copy_author ''updateAuthor'' com outcom1
      in JObj outcom2)"

fun comments_loop :: "obj list \<Rightarrow> cout \<Rightarrow> cout" where
  "comments_loop [] co = co"
| "comments_loop (com # coms) co =
     (if truthy (get_prop com ''visibility'') then comments_loop coms co
      else comments_loop coms
             (co\<lparr>co_comments := co_comments co @ [copy_comment com],
                 co_maxResults := co_maxResults co + 1,
                 co_total := co_total co + 1\<rparr>))"

definition cout_value :: "cout \<Rightarrow> jsval" where
  "cout_value co =
     JObj [(''maxResults'', JNum (co_maxResults co)), (''total'', JNum (co_total co)),
           (''startAt'', JNum (co_startAt co)), (''comments'', JArr (co_comments co))]"

text \<open>
  The statements of format_issue_assemble that fill \<open>out.fields\<close>, in the order of the
  source. \<open>scalar_fields\<close> is \<open>out.fields\<close> after the calls of copy_obj and copy_simple
  of lines 1366 to 1378; \<open>assemble_fields\<close> goes on to line 1502 and returns the log and
  the final \<open>out.fields\<close>.
\<close>

definition scalar_fields :: "obj \<Rightarrow> obj" where
  "scalar_fields props =
     (let o0 = [(''summary'', get_prop props ''summary'')];
          o1 = copy_obj props ''issuetype'' o0;
          o2 = copy_obj props ''priority'' o1;
          o3 = copy_obj props ''status'' o2;
          o4 = copy_simple props ''created'' o3;
          o5 = copy_simple props ''updated'' o4;
          o6 = copy_obj props ''creator'' o5;
          o7 = copy_obj props ''reporter'' o6;
          o8 = copy_obj props ''assignee'' o7;
          o9 = copy_obj props ''resolution'' o8
      in copy_simple props ''resolutiondate'' o9)"

definition assemble_fields ::
  "globals \<Rightarrow> raw_issue \<Rightarrow> (string \<Rightarrow> raw_issue option) \<Rightarrow> log_entry list \<times> obj" where
  "assemble_fields G issue other_issues =
     (let fields = i_fields issue;
          props = f_props fields;
          o10 = scalar_fields props;
          o11 = (case f_fixVersions fields of
                   None \<Rightarrow> o10
                 | Some fvs \<Rightarrow>
                     set_prop ''fixVersions''
                       (JArr (map (\<lambda>fv. JObj (copy_keys RELEASE_OBJECT_KEYS (JObj fv) [])) fvs))
                       o10);
          o12 = (case f_issuelinks fields of
                   None \<Rightarrow> o11
                 | Some ils \<Rightarrow>
                     set_prop ''issuelinks'' (JArr (links_loop G other_issues ils [])) o11);
          o13 = set_prop ''labels''
                  (JArr (map JStr (filter (is_allowed_label G) (f_labels fields)))) o12;
          o14 = copy_simple props ''description'' o13
      in case f_comment fields of
           None \<Rightarrow> ([], o14)
         | Some c \<Rightarrow>
             (if \<not> strict_eq (cc_maxResults c) (cc_total c) then [CommentCountMismatch]
              else [],
              set_prop ''comment''
                (cout_value (comments_loop (cc_comments c)
                   \<lparr>co_maxResults = 0, co_total = 0, co_startAt = 0, co_comments = []\<rparr>))
                o14))"

text \<open>format_issue_assemble: the log and the object \<open>{issue: out, remotelinks: [...]}\<close>.\<close>

definition format_issue_assemble ::
  "globals \<Rightarrow> raw_issue \<Rightarrow> remote_link list \<Rightarrow> (string \<Rightarrow> raw_issue option) \<Rightarrow>
     log_entry list \<times> jsval" where
  "format_issue_assemble G issue remotelinks other_issues =
     (let (lg, fs) = assemble_fields G issue other_issues;
          out = JObj [(''id'', i_id issue), (''key'', i_key issue), (''fields'', JObj fs)]
      in (lg,
          JObj [(''issue'', out),
                (''remotelinks'',
                 JArr (map (\<lambda>rl. JObj [(''id'', rl_id rl),
                                        (''object'',
                                         JObj [(''url'', get_prop (rl_object rl) ''url''),
                                               (''title'', get_prop (rl_object rl) ''title'')])])
                         remotelinks))]))"

text \<open>The \<open>fields\<close> object of the sanitised issue.\<close>

definition out_fields :: "log_entry list \<times> jsval \<Rightarrow> jsval" where
  "out_fields r = jget (jget (snd r) ''issue'') ''fields''"

section \<open>The specification's reading of a link and of a comment\<close>

text \<open>
  The specification calls a related issue Visible when its fetch succeeded and, unless
  unrestricted mode is active, its labels hold the public label. The three definitions
  below follow the specification's words, with the key pattern of allow_issue added, and
  are compared with the loop of the source.
\<close>

definition spec_visible :: "globals \<Rightarrow> (string \<Rightarrow> raw_issue option) \<Rightarrow> string \<Rightarrow> bool" where
  "spec_visible G other_issues key =
     (case other_issues key of
        None \<Rightarrow> False
      | Some other \<Rightarrow> UNRESTRICTED G \<or> CONFIG_label G \<in> set (f_labels (i_fields other)))"

definition spec_endpoint_shown ::
  "globals \<Rightarrow> (string \<Rightarrow> raw_issue option) \<Rightarrow> endpoint option \<Rightarrow> bool" where
  "spec_endpoint_shown G other_issues epo =
     (case epo of
        None \<Rightarrow> False
      | Some ep \<Rightarrow> key_match (ep_key ep) \<and> spec_visible G other_issues (ep_key ep))"

definition spec_link_shown ::
  "globals \<Rightarrow> (string \<Rightarrow> raw_issue option) \<Rightarrow> issue_link \<Rightarrow> bool" where
  "spec_link_shown G other_issues il =
     (spec_endpoint_shown G other_issues (il_outwardIssue il) \<or>
      spec_endpoint_shown G other_issues (il_inwardIssue il))"

definition spec_endpoint_view :: "endpoint \<Rightarrow> jsval" where
  "spec_endpoint_view ep =
     JObj [(''id'', ep_id ep), (''key'', JStr (ep_key ep)),
           (''fields'', JObj [(''summary'', get_prop (ep_fields ep) ''summary'')])]"

definition spec_link_view ::
  "globals \<Rightarrow> (string \<Rightarrow> raw_issue option) \<Rightarrow> issue_link \<Rightarrow> jsval" where
  "spec_link_view G other_issues il =
     JObj ([(''id'', il_id il),
            (''type'', JObj [(''id'', get_prop (il_type il) ''id''),
                             (''name'', get_prop (il_type il) ''name''),
                             (''inward'', get_prop (il_type il) ''inward''),
                             (''outward'', get_prop (il_type il) ''outward'')])] @
           (case il_outwardIssue il of
              None \<Rightarrow> []
            | Some ep \<Rightarrow>
                if spec_endpoint_shown G other_issues (Some ep)
                then [(''outwardIssue'', spec_endpoint_view ep)] else []) @
           (case il_inwardIssue il of
              None \<Rightarrow> []
            | Some ep \<Rightarrow>
                if spec_endpoint_shown G other_issues (Some ep)
                then [(''inwardIssue'', spec_endpoint_view ep)] else []))"

text \<open>
  The specification's reading of a retained comment: its id, created, updated and body
  as the raw comment has them, and its author and updateAuthor, where the raw comment
  has one, with the name, key, emailAddress and displayName of the raw author.
\<close>

definition spec_author_view :: "jsval \<Rightarrow> jsval" where
  "spec_author_view a =
     JObj [(''name'', jget a ''name''), (''key'', jget a ''key''),
           (''emailAddress'', jget a ''emailAddress''),
           (''displayName'', jget a ''displayName'')]"

definition spec_comment_view :: "obj \<Rightarrow> jsval" where
  "spec_comment_view com =
     JObj ([(''id'', get_prop com ''id''), (''created'', get_prop com ''created''),
            (''updated'', get_prop com ''updated''), (''body'', get_prop com ''body'')] @
           (if truthy (get_prop com ''author'')
            then [(''author'', spec_author_view (get_prop com ''author''))] else []) @
           (if truthy (get_prop com ''updateAuthor'')
            then [(''updateAuthor'', spec_author_view (get_prop com ''updateAuthor''))]
            else []))"

section \<open>Example values\<close>

text \<open>
  A configuration, a public related issue, and raw issues on which the theorems below
  are instantiated.
\<close>

definition ex_globals :: globals where
  "ex_globals = \<lparr>CONFIG_label = ''public'', ALLOWED_LABELS = [''public'', ''zfs''],
     UNRESTRICTED = False\<rparr>"

definition ex_related :: raw_issue where
  "ex_related =
     \<lparr>i_id = JStr ''20'', i_key = JStr ''OS-2'',
      i_fields = \<lparr>f_props = [(''summary'', JStr ''related'')], f_fixVersions = None,
                  f_issuelinks = None, f_labels = [''public''], f_comment = None\<rparr>\<rparr>"

definition ex_related_digit_key :: raw_issue where
  "ex_related_digit_key =
     \<lparr>i_id = JStr ''40'', i_key = JStr ''AB2-1'',
      i_fields = \<lparr>f_props = [(''summary'', JStr ''related'')], f_fixVersions = None,
                  f_issuelinks = None, f_labels = [''public''], f_comment = None\<rparr>\<rparr>"

definition ex_other_issues :: "string \<Rightarrow> raw_issue option" where
  "ex_other_issues key =
     (if key = ''OS-2'' then Some ex_related
      else if key = ''AB2-1'' then Some ex_related_digit_key else None)"

definition ex_comment :: obj where
  "ex_comment =
     [(''self'', JStr ''https://jira/comment/1''), (''id'', JStr ''1''),
      (''author'', JObj [(''self'', JStr ''https://jira/user/bob''), (''name'', JStr ''bob''),
                         (''displayName'', JStr ''Bob''), (''active'', JBool True)]),
      (''body'', JStr ''fixed''), (''created'', JStr ''2019-01-01''),
      (''updated'', JStr ''2019-01-01'')]"

text \<open>What is left of \<open>ex_comment\<close> in the sanitised issue.\<close>

definition ex_comment_copy :: jsval where
  "ex_comment_copy =
     JObj [(''id'', JStr ''1''), (''created'', JStr ''2019-01-01''),
           (''updated'', JStr ''2019-01-01''), (''body'', JStr ''fixed''),
           (''author'', JObj [(''name'', JStr ''bob''), (''key'', JUndefined),
                              (''emailAddress'', JUndefined),
                              (''displayName'', JStr ''Bob'')])]"

definition ex_comments :: comment_container where
  "ex_comments =
     \<lparr>cc_maxResults = JNum 5, cc_total = JNum 2,
      cc_comments = [ex_comment,
                     [(''id'', JStr ''2''), (''body'', JStr ''internal''),
                      (''visibility'', JObj [(''type'', JStr ''role''),
                                             (''value'', JStr ''Developers'')])]]\<rparr>"

definition ex_fix_versions :: "obj list" where
  "ex_fix_versions =
     [[(''self'', JStr ''https://jira/version/3''), (''id'', JStr ''3''),
       (''name'', JStr ''2019-01-03''), (''archived'', JBool False),
       (''released'', JBool False)]]"

definition ex_links :: "issue_link list" where
  "ex_links =
     [\<lparr>il_id = JStr ''100'',
       il_type = [(''id'', JStr ''1''), (''name'', JStr ''Relates''),
                  (''inward'', JStr ''relates to''), (''outward'', JStr ''relates to'')],
       il_outwardIssue = Some \<lparr>ep_id = JStr ''20'', ep_key = ''OS-2'',
                                ep_fields = [(''summary'', JStr ''related''),
                                             (''status'', JObj [(''name'', JStr ''Open'')])]\<rparr>,
       il_inwardIssue = None\<rparr>,
      \<lparr>il_id = JStr ''101'',
       il_type = [(''id'', JStr ''1''), (''name'', JStr ''Relates''),
                  (''inward'', JStr ''relates to''), (''outward'', JStr ''relates to'')],
       il_outwardIssue = None,
       il_inwardIssue = Some \<lparr>ep_id = JStr ''30'', ep_key = ''OS-3'',
                               ep_fields = [(''summary'', JStr ''private'')]\<rparr>\<rparr>]"

definition ex_issue :: raw_issue where
  "ex_issue =
     \<lparr>i_id = JStr ''10'', i_key = JStr ''OS-1'',
      i_fields =
        \<lparr>f_props = [(''summary'', JStr ''panic''),
                    (''status'', JObj [(''self'', JStr ''https://jira/status/1''),
                                       (''id'', JStr ''1''), (''name'', JStr ''Open''),
                                       (''description'', JStr [])]),
                    (''resolution'', JNull)],
         f_fixVersions = Some ex_fix_versions,
         f_issuelinks = Some ex_links,
         f_labels = [''public'', ''internal''],
         f_comment = Some ex_comments\<rparr>\<rparr>"

text \<open>An issue whose only link leads to a public issue of a project key with a digit.\<close>

definition ex_endpoint_digit_key :: endpoint where
  "ex_endpoint_digit_key =
     \<lparr>ep_id = JStr ''40'', ep_key = ''AB2-1'', ep_fields = [(''summary'', JStr ''related'')]\<rparr>"

definition ex_link_digit_key :: issue_link where
  "ex_link_digit_key =
     \<lparr>il_id = JStr ''102'', il_type = [(''id'', JStr ''1'')],
      il_outwardIssue = Some ex_endpoint_digit_key, il_inwardIssue = None\<rparr>"

definition ex_issue_digit_key :: raw_issue where
  "ex_issue_digit_key =
     \<lparr>i_id = JStr ''11'', i_key = JStr ''OS-4'',
      i_fields =
        \<lparr>f_props = [(''summary'', JStr ''hang'')],
         f_fixVersions = None,
         f_issuelinks = Some [ex_link_digit_key],
         f_labels = [''public''],
         f_comment = None\<rparr>\<rparr>"

text \<open>
  Stand-ins for the external modules, used where a theorem is instantiated: the numeric
  encoding of \<open>ent\<close> (a character below 32, above 126 or one of \<open>" ' < > &\<close> becomes
  \<open>&#code;\<close>), a \<open>url.parse\<close> that throws on its input (as Node's does on a URL
  whose auth part cannot be decoded, such as \<open>http://%@x/\<close>), and a \<open>url.format\<close> that
  joins the components.
\<close>

definition decimal :: "nat \<Rightarrow> string" where
  "decimal n =
     (if n < 10 then [char_of (48 + n)]
      else if n < 100 then [char_of (48 + n div 10), char_of (48 + n mod 10)]
      else [char_of (48 + n div 100), char_of (48 + n div 10 mod 10), char_of (48 + n mod 10)])"

definition ent_char :: "char \<Rightarrow> string" where
  "ent_char c =
     (if (of_char c :: nat) < 32 \<or> (of_char c :: nat) \<ge> 127 \<or>
         c \<in> {CHR 0x22, CHR 0x27, CHR ''<'', CHR ''>'', CHR ''&''}
      then ''&#'' @ decimal (of_char c) @ '';'' else [c])"

definition ent_numeric :: "string \<Rightarrow> string" where
  "ent_numeric s = concat (map ent_char s)"

definition url_parse_throws :: "string \<Rightarrow> url option" where
  "url_parse_throws s = None"

definition url_format_plain :: "url \<Rightarrow> string" where
  "url_format_plain u =
     (case u_protocol u of None \<Rightarrow> [] | Some x \<Rightarrow> x) @
     (if u_slashes u then ''//'' else []) @
     (case u_host u of None \<Rightarrow> [] | Some x \<Rightarrow> x) @
     (case u_pathname u of None \<Rightarrow> [] | Some x \<Rightarrow> x) @
     (case u_search u of None \<Rightarrow> [] | Some x \<Rightarrow> x) @
     (case u_hash u of None \<Rightarrow> [] | Some x \<Rightarrow> x)"

definition ex_modules :: modules where
  "ex_modules = \<lparr>ent_encode = ent_numeric, url_parse = url_parse_throws,
     url_format = url_format_plain\<rparr>"

text \<open>The parser state of format_markup_fallback before the first line.\<close>

definition ex_ps :: parser_state where
  "ex_ps = \<lparr>ps_list = None, ps_heading = None\<rparr>"

text \<open>The variables of the parser after the three characters \<open>{{a\<close> of a line.\<close>

definition ex_in_code :: locals where
  "ex_in_code =
     \<lparr>l_text = ''a'', l_formats = [CODE], l_out = [''<code>''], l_state = TEXT,
      l_link_title = [], l_link_url = [], l_leading_spaces = 0, l_ps = ex_ps, l_log = []\<rparr>"

section \<open>Properties of format_issue_assemble\<close>

subsection \<open>Reading and writing properties\<close>

lemma map_of_set_prop:
  "map_of (set_prop k v ob) k' = (if k' = k then Some v else map_of ob k')"
  by (induction ob) auto

lemma get_prop_set_prop:
  "get_prop (set_prop k v ob) k' = (if k' = k then v else get_prop ob k')"
  by (simp add: get_prop_def map_of_set_prop)

lemma keys_set_prop: "fst ` set (set_prop k v ob) = insert k (fst ` set ob)"
proof (induction ob)
  case Nil
  show ?case by simp
next
  case (Cons p ob)
  obtain k' v' where p: "p = (k', v')" by (cases p)
  show ?case
  proof (cases "k' = k")
    case True
    then show ?thesis by (simp add: p)
  next
    case False
    then show ?thesis using Cons.IH by (simp add: p insert_commute)
  qed
qed

lemma mem_keys_set_prop: "k' \<in> fst ` set (set_prop k v ob) \<longleftrightarrow> k' = k \<or> k' \<in> fst ` set ob"
  by (simp add: keys_set_prop)

lemma keys_copy_keys:
  "k \<in> fst ` set (copy_keys ks src t) \<longleftrightarrow> k \<in> fst ` set t \<or> (k \<in> set ks \<and> truthy (jget src k))"
  by (induction ks arbitrary: t) (auto simp: keys_set_prop)

lemma get_copy_obj:
  "get_prop (copy_obj props f ob) k =
     (if k = f \<and> truthy (get_prop props f)
      then JObj (copy_keys ISSUE_OBJECT_KEYS (get_prop props f) []) else get_prop ob k)"
  by (simp add: copy_obj_def get_prop_set_prop)

lemma get_copy_simple:
  "get_prop (copy_simple props f ob) k =
     (if k = f \<and> truthy (get_prop props f) then get_prop props f else get_prop ob k)"
  by (simp add: copy_simple_def get_prop_set_prop)

lemma keys_copy_obj:
  "k \<in> fst ` set (copy_obj props f ob) \<longleftrightarrow> (k = f \<and> truthy (get_prop props f)) \<or> k \<in> fst ` set ob"
  by (auto simp: copy_obj_def keys_set_prop)

lemma keys_copy_simple:
  "k \<in> fst ` set (copy_simple props f ob) \<longleftrightarrow> (k = f \<and> truthy (get_prop props f)) \<or> k \<in> fst ` set ob"
  by (auto simp: copy_simple_def keys_set_prop)

lemma get_prop_absent: "k \<notin> fst ` set ob \<Longrightarrow> get_prop ob k = JUndefined"
  by (simp add: get_prop_def map_of_eq_None_iff[THEN iffD2])

lemma get_prop_Nil: "get_prop [] k = JUndefined"
  by (simp add: get_prop_def)

lemma get_prop_Cons: "get_prop ((k, v) # ob) k' = (if k' = k then v else get_prop ob k')"
  by (simp add: get_prop_def)

lemma jget_JObj: "jget (JObj ob) k = get_prop ob k"
  by (simp add: jget_def)

lemma obj_keys_JObj: "obj_keys (JObj ob) = map fst ob"
  by (simp add: obj_keys_def)

lemma obj_keys_JUndefined: "obj_keys JUndefined = []"
  by (simp add: obj_keys_def)

lemma out_fields_eq:
  "out_fields (format_issue_assemble G issue rls other) = JObj (snd (assemble_fields G issue other))"
  by (simp add: out_fields_def format_issue_assemble_def Let_def jget_def get_prop_def split_def)

lemma get_prop_single: "get_prop [(k, v)] k' = (if k' = k then v else JUndefined)"
  by (simp add: get_prop_def)

lemma get_scalar_fields:
  assumes "fname \<in> set [''issuetype'', ''priority'', ''status'', ''creator'', ''reporter'',
             ''assignee'', ''resolution'']"
  shows "get_prop (scalar_fields props) fname =
     (if truthy (get_prop props fname)
      then JObj (copy_keys ISSUE_OBJECT_KEYS (get_prop props fname) [])
      else JUndefined)"
proof -
  have "fname = ''issuetype'' \<or> fname = ''priority'' \<or> fname = ''status'' \<or>
        fname = ''creator'' \<or> fname = ''reporter'' \<or> fname = ''assignee'' \<or>
        fname = ''resolution''"
    using assms by simp
  then show ?thesis
    by (elim disjE)
       (simp_all add: scalar_fields_def Let_def get_copy_obj get_copy_simple get_prop_single)
qed

lemma assemble_get_frame:
  assumes "k \<noteq> ''fixVersions''" "k \<noteq> ''issuelinks''" "k \<noteq> ''labels''" "k \<noteq> ''description''" "k \<noteq> ''comment''"
  shows "get_prop (snd (assemble_fields G issue other)) k = get_prop (scalar_fields (f_props (i_fields issue))) k"
  using assms
  by (cases "f_comment (i_fields issue)"; cases "f_issuelinks (i_fields issue)";
        cases "f_fixVersions (i_fields issue)")
     (simp_all add: assemble_fields_def Let_def get_prop_set_prop get_copy_simple)

lemma copy_keys_subset: "fst ` set (copy_keys ks src []) \<subseteq> set ks"
  using keys_copy_keys [of _ ks src "[]"] by auto

lemma objname_cases:
  assumes "fname \<in> set [''issuetype'', ''priority'', ''status'', ''creator'', ''reporter'',
             ''assignee'', ''resolution'']"
  shows "fname = ''issuetype'' \<or> fname = ''priority'' \<or> fname = ''status'' \<or>
        fname = ''creator'' \<or> fname = ''reporter'' \<or> fname = ''assignee'' \<or>
        fname = ''resolution''"
  using assms by simp

lemma assemble_get_obj:
  assumes "fname \<in> set [''issuetype'', ''priority'', ''status'', ''creator'', ''reporter'',
             ''assignee'', ''resolution'']"
  shows "get_prop (snd (assemble_fields G issue other)) fname =
     (if truthy (get_prop (f_props (i_fields issue)) fname)
      then JObj (copy_keys ISSUE_OBJECT_KEYS (get_prop (f_props (i_fields issue)) fname) [])
      else JUndefined)"
proof -
  have "fname \<noteq> ''fixVersions'' \<and> fname \<noteq> ''issuelinks'' \<and> fname \<noteq> ''labels'' \<and>
        fname \<noteq> ''description'' \<and> fname \<noteq> ''comment''"
    using objname_cases [OF assms] by (elim disjE) simp_all
  then show ?thesis
    by (simp add: assemble_get_frame get_scalar_fields [OF assms])
qed

lemma keys_scalar_fields:
  "k \<in> fst ` set (scalar_fields props) \<longleftrightarrow>
     (k = ''resolutiondate'' \<and> truthy (get_prop props ''resolutiondate'')) \<or>
     (k = ''resolution'' \<and> truthy (get_prop props ''resolution'')) \<or>
     (k = ''assignee'' \<and> truthy (get_prop props ''assignee'')) \<or>
     (k = ''reporter'' \<and> truthy (get_prop props ''reporter'')) \<or>
     (k = ''creator'' \<and> truthy (get_prop props ''creator'')) \<or>
     (k = ''updated'' \<and> truthy (get_prop props ''updated'')) \<or>
     (k = ''created'' \<and> truthy (get_prop props ''created'')) \<or>
     (k = ''status'' \<and> truthy (get_prop props ''status'')) \<or>
     (k = ''priority'' \<and> truthy (get_prop props ''priority'')) \<or>
     (k = ''issuetype'' \<and> truthy (get_prop props ''issuetype'')) \<or>
     k = ''summary''"
  by (simp only: scalar_fields_def Let_def keys_copy_obj keys_copy_simple
        list.set image_insert image_empty fst_conv insert_iff empty_iff disj_assoc simp_thms)

lemma keys_assemble_frame:
  assumes "k \<noteq> ''fixVersions''" "k \<noteq> ''issuelinks''" "k \<noteq> ''labels''" "k \<noteq> ''description''" "k \<noteq> ''comment''"
  shows "k \<in> fst ` set (snd (assemble_fields G issue other)) \<longleftrightarrow> k \<in> fst ` set (scalar_fields (f_props (i_fields issue)))"
  using assms
  by (cases "f_comment (i_fields issue)"; cases "f_issuelinks (i_fields issue)";
        cases "f_fixVersions (i_fields issue)")
     (simp_all add: assemble_fields_def Let_def mem_keys_set_prop keys_copy_simple)

lemma assemble_absent_obj:
  assumes "fname \<in> set [''issuetype'', ''priority'', ''status'', ''creator'', ''reporter'',
             ''assignee'', ''resolution'']"
    and nt: "\<not> truthy (get_prop (f_props (i_fields issue)) fname)"
  shows "fname \<notin> fst ` set (snd (assemble_fields G issue other))"
proof -
  have ne: "fname \<noteq> ''fixVersions'' \<and> fname \<noteq> ''issuelinks'' \<and> fname \<noteq> ''labels'' \<and>
        fname \<noteq> ''description'' \<and> fname \<noteq> ''comment''"
    using objname_cases [OF assms(1)] by (elim disjE) simp_all
  have "fname \<notin> fst ` set (scalar_fields (f_props (i_fields issue)))"
    using objname_cases [OF assms(1)] nt
    by (elim disjE) (simp_all add: keys_scalar_fields)
  then show ?thesis using ne by (simp add: keys_assemble_frame)
qed



lemma comments_loop_counts:
  "co_maxResults (comments_loop cs co) =
      co_maxResults co + int (length (co_comments (comments_loop cs co))) - int (length (co_comments co))
   \<and> co_total (comments_loop cs co) =
      co_total co + int (length (co_comments (comments_loop cs co))) - int (length (co_comments co))
   \<and> co_startAt (comments_loop cs co) = co_startAt co"
  by (induction cs arbitrary: co) auto

lemma comments_loop_comments:
  "co_comments (comments_loop cs co) =
     co_comments co @ map copy_comment (filter (\<lambda>com. \<not> truthy (get_prop com ''visibility'')) cs)"
  by (induction cs arbitrary: co) auto

lemma assemble_get_comment:
  assumes "f_comment (i_fields issue) = Some c"
  shows "get_prop (snd (assemble_fields G issue other)) ''comment'' =
     cout_value (comments_loop (cc_comments c)
        \<lparr>co_maxResults = 0, co_total = 0, co_startAt = 0, co_comments = []\<rparr>)"
  using assms by (simp add: assemble_fields_def Let_def get_prop_set_prop)

lemma link_body_spec:
  "link_body G other il = (spec_link_shown G other il, (case spec_link_view G other il of JObj ob \<Rightarrow> ob | _ \<Rightarrow> []))"
  by (auto simp: link_body_def spec_link_shown_def spec_link_view_def spec_endpoint_shown_def
       spec_visible_def allow_issue_def copy_endpoint_def spec_endpoint_view_def Let_def
       split: option.splits)

lemma links_loop_spec:
  "links_loop G other ils links =
     links @ map (spec_link_view G other) (filter (spec_link_shown G other) ils)"
proof (induction ils arbitrary: links)
  case Nil
  show ?case by simp
next
  case (Cons il ils)
  have v: "JObj (case spec_link_view G other il of JObj ob \<Rightarrow> ob | _ \<Rightarrow> []) = spec_link_view G other il"
    by (simp add: spec_link_view_def)
  show ?case
    by (simp add: link_body_spec Cons.IH v)
qed

lemma assemble_get_links:
  assumes "f_issuelinks (i_fields issue) = Some ils"
  shows "get_prop (snd (assemble_fields G issue other)) ''issuelinks'' =
     JArr (links_loop G other ils [])"
  using assms
  by (cases "f_comment (i_fields issue)")
     (simp_all add: assemble_fields_def Let_def get_prop_set_prop get_copy_simple)

lemma keys_copy_author:
  "k \<in> fst ` set (copy_author f cfrom cto) \<longleftrightarrow> (k = f \<and> truthy (get_prop cfrom f)) \<or> k \<in> fst ` set cto"
  by (auto simp: copy_author_def keys_set_prop)

lemma copy_comment_keys:
  "set (obj_keys (copy_comment com)) \<subseteq>
     set [''id'', ''created'', ''updated'', ''body'', ''author'', ''updateAuthor'']"
proof
  fix k assume "k \<in> set (obj_keys (copy_comment com))"
  then have "k \<in> fst ` set (copy_author ''updateAuthor'' com (copy_author ''author'' com
       [(''id'', get_prop com ''id''), (''created'', get_prop com ''created''),
        (''updated'', get_prop com ''updated''), (''body'', get_prop com ''body'')]))"
    by (simp add: copy_comment_def Let_def obj_keys_JObj)
  then show "k \<in> set [''id'', ''created'', ''updated'', ''body'', ''author'', ''updateAuthor'']"
    by (simp only: keys_copy_author) auto
qed

lemma get_copy_author:
  "get_prop (copy_author f cfrom cto) k =
     (if k = f \<and> truthy (get_prop cfrom f)
      then JObj [(''name'', jget (get_prop cfrom f) ''name''),
                    (''key'', jget (get_prop cfrom f) ''key''),
                    (''emailAddress'', jget (get_prop cfrom f) ''emailAddress''),
                    (''displayName'', jget (get_prop cfrom f) ''displayName'')]
      else get_prop cto k)"
  by (simp add: copy_author_def get_prop_set_prop)

lemma copy_comment_author_keys:
  assumes "a = ''author'' \<or> a = ''updateAuthor''"
  shows "set (obj_keys (jget (copy_comment com) a)) \<subseteq>
     set [''name'', ''key'', ''emailAddress'', ''displayName'']"
  using assms
  by (elim disjE)
     (simp_all add: copy_comment_def Let_def jget_JObj get_copy_author get_prop_Cons
        get_prop_Nil obj_keys_JObj obj_keys_JUndefined)


lemma copy_comment_view: "copy_comment com = spec_comment_view com"
  by (simp add: copy_comment_def spec_comment_view_def spec_author_view_def copy_author_def
        Let_def)

lemma spec_comment_view_scalars:
  "jget (spec_comment_view com) ''id'' = get_prop com ''id'' \<and>
   jget (spec_comment_view com) ''created'' = get_prop com ''created'' \<and>
   jget (spec_comment_view com) ''updated'' = get_prop com ''updated'' \<and>
   jget (spec_comment_view com) ''body'' = get_prop com ''body''"
  by (simp add: spec_comment_view_def jget_JObj get_prop_Cons)

lemma spec_comment_view_author:
  assumes "a = ''author'' \<or> a = ''updateAuthor''"
  shows "jget (spec_comment_view com) a =
     (if truthy (get_prop com a)
      then JObj [(''name'', jget (get_prop com a) ''name''),
                 (''key'', jget (get_prop com a) ''key''),
                 (''emailAddress'', jget (get_prop com a) ''emailAddress''),
                 (''displayName'', jget (get_prop com a) ''displayName'')]
      else JUndefined)
   \<and> (a \<in> set (obj_keys (spec_comment_view com)) \<longleftrightarrow> truthy (get_prop com a))"
  using assms
  by (elim disjE)
     (simp_all add: spec_comment_view_def spec_author_view_def jget_JObj get_prop_Cons
        get_prop_Nil obj_keys_JObj)

section \<open>The claims about format_issue_assemble\<close>

text \<open>
  C1. For every raw issue, every object-valued field (issuetype, priority, status,
  creator, reporter, assignee, resolution) of the sanitised record has only keys of
  ISSUE_OBJECT_KEYS (id, name, description, key, emailAddress, displayName), and a field
  that the raw issue does not have is not a key of the sanitised fields.
\<close>

theorem C1_object_fields_allowlisted:
  assumes "fname \<in> set [''issuetype'', ''priority'', ''status'', ''creator'', ''reporter'',
             ''assignee'', ''resolution'']"
  shows "set (obj_keys (jget (out_fields (format_issue_assemble G issue rls other)) fname))
           \<subseteq> set ISSUE_OBJECT_KEYS
       \<and> (fname \<notin> fst ` set (f_props (i_fields issue)) \<longrightarrow>
            fname \<notin> set (obj_keys (out_fields (format_issue_assemble G issue rls other))))"
proof
  have g: "jget (out_fields (format_issue_assemble G issue rls other)) fname =
     (if truthy (get_prop (f_props (i_fields issue)) fname)
      then JObj (copy_keys ISSUE_OBJECT_KEYS (get_prop (f_props (i_fields issue)) fname) [])
      else JUndefined)"
    by (simp only: out_fields_eq jget_JObj assemble_get_obj[OF assms])
  show "set (obj_keys (jget (out_fields (format_issue_assemble G issue rls other)) fname))
           \<subseteq> set ISSUE_OBJECT_KEYS"
  proof (cases "truthy (get_prop (f_props (i_fields issue)) fname)")
    case True
    then show ?thesis
      using copy_keys_subset [of ISSUE_OBJECT_KEYS "get_prop (f_props (i_fields issue)) fname"]
      by (simp only: g if_True obj_keys_JObj set_map)
  next
    case False
    then show ?thesis by (simp only: g if_False) (simp add: obj_keys_def)
  qed
next
  show "fname \<notin> fst ` set (f_props (i_fields issue)) \<longrightarrow>
            fname \<notin> set (obj_keys (out_fields (format_issue_assemble G issue rls other)))"
  proof
    assume "fname \<notin> fst ` set (f_props (i_fields issue))"
    then have nt: "\<not> truthy (get_prop (f_props (i_fields issue)) fname)"
      by (simp add: get_prop_absent)
    show "fname \<notin> set (obj_keys (out_fields (format_issue_assemble G issue rls other)))"
      using assemble_absent_obj [OF assms nt] by (simp add: out_fields_eq obj_keys_JObj)
  qed
qed

theorem C1_object_fields_allowlisted_witness:
  "''status'' \<in> set [''issuetype'', ''priority'', ''status'', ''creator'', ''reporter'',
                      ''assignee'', ''resolution''] \<and>
   set (obj_keys (jget (out_fields (format_issue_assemble ex_globals ex_issue [] ex_other_issues))
          ''status'')) \<subseteq> set ISSUE_OBJECT_KEYS \<and>
   ''assignee'' \<notin> fst ` set (f_props (i_fields ex_issue)) \<and>
   ''assignee'' \<notin> set (obj_keys (out_fields
          (format_issue_assemble ex_globals ex_issue [] ex_other_issues)))"
proof -
  have a: "''assignee'' \<notin> fst ` set (f_props (i_fields ex_issue))"
    by (simp add: ex_issue_def)
  show ?thesis
    using C1_object_fields_allowlisted [of "''status''" ex_globals ex_issue "[]" ex_other_issues]
      C1_object_fields_allowlisted [of "''assignee''" ex_globals ex_issue "[]" ex_other_issues] a
    by simp
qed

text \<open>
  C2, as stated: a link is in the sanitised issuelinks if and only if one of its
  endpoints is Visible. This fails on the code: allow_issue also requires the key of
  the endpoint to begin with upper-case letters, a hyphen and a digit, so the link to
  the public issue AB2-1 is dropped.
\<close>

theorem C2_digit_key_counterexample:
  "f_issuelinks (i_fields ex_issue_digit_key) = Some [ex_link_digit_key] \<and>
   il_outwardIssue ex_link_digit_key = Some ex_endpoint_digit_key \<and>
   ep_key ex_endpoint_digit_key = ''AB2-1'' \<and>
   spec_visible ex_globals ex_other_issues ''AB2-1'' \<and>
   jget (out_fields (format_issue_assemble ex_globals ex_issue_digit_key [] ex_other_issues))
     ''issuelinks'' = JArr []"
  by (simp add: ex_issue_digit_key_def ex_link_digit_key_def ex_endpoint_digit_key_def
        ex_globals_def ex_other_issues_def ex_related_def ex_related_digit_key_def
        spec_visible_def out_fields_eq jget_JObj assemble_fields_def scalar_fields_def Let_def
        copy_obj_def copy_simple_def get_prop_Cons get_prop_Nil link_body_def allow_issue_def
        key_match_def is_upper_def is_digit_def)

text \<open>
  C2, amended: for every raw issue with issue links and every resolved set of related
  issues, the sanitised issuelinks are, in order, the links with at least one endpoint
  whose key matches \<open>^[A-Z]+-[0-9]+\<close> and that is Visible; a suppressed link leaves
  nothing, and a surviving link carries its id, its type (id, name, inward, outward) and,
  for each such endpoint and no other, exactly \<open>{id, key, fields: {summary}}\<close>.
\<close>

theorem C2_issuelinks_visible_endpoints:
  assumes "f_issuelinks (i_fields issue) = Some ils"
  shows "jget (out_fields (format_issue_assemble G issue rls other)) ''issuelinks'' =
     JArr (map (spec_link_view G other) (filter (spec_link_shown G other) ils))"
  by (simp add: out_fields_eq jget_JObj assemble_get_links [OF assms] links_loop_spec)

theorem C2_issuelinks_visible_endpoints_witness:
  "f_issuelinks (i_fields ex_issue) = Some ex_links \<and>
   jget (out_fields (format_issue_assemble ex_globals ex_issue [] ex_other_issues))
     ''issuelinks'' =
     JArr [JObj [(''id'', JStr ''100''),
                 (''type'', JObj [(''id'', JStr ''1''), (''name'', JStr ''Relates''),
                                  (''inward'', JStr ''relates to''),
                                  (''outward'', JStr ''relates to'')]),
                 (''outwardIssue'',
                  JObj [(''id'', JStr ''20''), (''key'', JStr ''OS-2''),
                        (''fields'', JObj [(''summary'', JStr ''related'')])])]]"
proof -
  have a: "f_issuelinks (i_fields ex_issue) = Some ex_links"
    by (simp add: ex_issue_def)
  show ?thesis
    using C2_issuelinks_visible_endpoints [OF a, of ex_globals "[]" ex_other_issues] a
    by (simp add: ex_links_def ex_globals_def ex_other_issues_def ex_related_def
          spec_link_shown_def spec_link_view_def spec_endpoint_shown_def spec_endpoint_view_def
          spec_visible_def key_match_def is_upper_def is_digit_def get_prop_Cons get_prop_Nil)
qed

text \<open>
  C3, as stated: a comment with no visibility restriction is retained whole. This fails
  on the code: the retained comment is a copy of four of its properties and of four
  properties of its author, so \<open>self\<close> of the comment and \<open>active\<close> of its author are
  gone.
\<close>

theorem C3_retained_whole_counterexample:
  "f_comment (i_fields ex_issue) = Some ex_comments \<and>
   ex_comment \<in> set (cc_comments ex_comments) \<and>
   get_prop ex_comment ''visibility'' = JUndefined \<and>
   jget (jget (out_fields (format_issue_assemble ex_globals ex_issue [] ex_other_issues))
           ''comment'') ''comments'' = JArr [ex_comment_copy] \<and>
   get_prop ex_comment ''self'' = JStr ''https://jira/comment/1'' \<and>
   jget ex_comment_copy ''self'' = JUndefined \<and>
   jget (get_prop ex_comment ''author'') ''active'' = JBool True \<and>
   jget (jget ex_comment_copy ''author'') ''active'' = JUndefined"
  by (simp add: ex_issue_def ex_comments_def ex_comment_def ex_comment_copy_def out_fields_eq
        jget_JObj assemble_fields_def Let_def get_prop_set_prop cout_value_def copy_comment_def
        copy_author_def get_prop_Cons get_prop_Nil)

text \<open>
  C3, amended: for every raw issue with a comment container, the sanitised comments are,
  in order, the comments whose \<open>visibility\<close> is falsy; a comment with a truthy
  \<open>visibility\<close> leaves nothing. A retained comment has its id, created, updated and
  body as in the raw comment; it has an author (an updateAuthor) exactly when the raw
  one is truthy, with the name, key, emailAddress and displayName of the raw author and
  no other key; and it has no other key.
\<close>

theorem C3_comments_all_or_nothing:
  assumes "f_comment (i_fields issue) = Some c"
  shows "jget (jget (out_fields (format_issue_assemble G issue rls other)) ''comment'')
           ''comments'' =
     JArr (map spec_comment_view
            (filter (\<lambda>com. \<not> truthy (get_prop com ''visibility'')) (cc_comments c)))
   \<and> (\<forall>k \<in> set [''id'', ''created'', ''updated'', ''body''].
         jget (spec_comment_view com) k = get_prop com k)
   \<and> (\<forall>a \<in> set [''author'', ''updateAuthor''].
         (a \<in> set (obj_keys (spec_comment_view com)) \<longleftrightarrow> truthy (get_prop com a)) \<and>
         (truthy (get_prop com a) \<longrightarrow>
            obj_keys (jget (spec_comment_view com) a) =
              [''name'', ''key'', ''emailAddress'', ''displayName''] \<and>
            (\<forall>k \<in> set [''name'', ''key'', ''emailAddress'', ''displayName''].
               jget (jget (spec_comment_view com) a) k = jget (get_prop com a) k)))
   \<and> set (obj_keys (spec_comment_view com)) \<subseteq>
       set [''id'', ''created'', ''updated'', ''body'', ''author'', ''updateAuthor'']"
proof (intro conjI)
  show "jget (jget (out_fields (format_issue_assemble G issue rls other)) ''comment'')
           ''comments'' =
     JArr (map spec_comment_view
            (filter (\<lambda>com. \<not> truthy (get_prop com ''visibility'')) (cc_comments c)))"
    by (simp add: out_fields_eq jget_JObj assemble_get_comment [OF assms] cout_value_def
          comments_loop_comments get_prop_Cons copy_comment_view)
  show "\<forall>k \<in> set [''id'', ''created'', ''updated'', ''body''].
         jget (spec_comment_view com) k = get_prop com k"
    using spec_comment_view_scalars [of com] by simp
  show "\<forall>a \<in> set [''author'', ''updateAuthor''].
         (a \<in> set (obj_keys (spec_comment_view com)) \<longleftrightarrow> truthy (get_prop com a)) \<and>
         (truthy (get_prop com a) \<longrightarrow>
            obj_keys (jget (spec_comment_view com) a) =
              [''name'', ''key'', ''emailAddress'', ''displayName''] \<and>
            (\<forall>k \<in> set [''name'', ''key'', ''emailAddress'', ''displayName''].
               jget (jget (spec_comment_view com) a) k = jget (get_prop com a) k))"
    using spec_comment_view_author [of "''author''" com]
      spec_comment_view_author [of "''updateAuthor''" com]
    by (simp add: obj_keys_JObj jget_JObj get_prop_Cons)
  show "set (obj_keys (spec_comment_view com)) \<subseteq>
       set [''id'', ''created'', ''updated'', ''body'', ''author'', ''updateAuthor'']"
    using copy_comment_keys [of com] by (simp only: copy_comment_view)
qed

theorem C3_comments_all_or_nothing_witness:
  "f_comment (i_fields ex_issue) = Some ex_comments \<and>
   jget (jget (out_fields (format_issue_assemble ex_globals ex_issue [] ex_other_issues))
           ''comment'') ''comments'' = JArr [ex_comment_copy] \<and>
   jget ex_comment_copy ''body'' = get_prop ex_comment ''body'' \<and>
   jget (jget ex_comment_copy ''author'') ''displayName'' =
     jget (get_prop ex_comment ''author'') ''displayName''"
proof -
  have a: "f_comment (i_fields ex_issue) = Some ex_comments"
    by (simp add: ex_issue_def)
  have v: "spec_comment_view ex_comment = ex_comment_copy"
    by (simp add: spec_comment_view_def spec_author_view_def ex_comment_def ex_comment_copy_def
          get_prop_Cons get_prop_Nil jget_JObj)
  show ?thesis
    using C3_comments_all_or_nothing [OF a, of ex_globals "[]" ex_other_issues ex_comment] a
    by (simp add: v ex_comments_def get_prop_Cons get_prop_Nil)
       (simp add: ex_comment_def ex_comment_copy_def get_prop_Cons get_prop_Nil jget_JObj)
qed

text \<open>
  C9. For every raw issue with a comment container, the sanitised container has
  \<open>maxResults = total = comments.length\<close> and \<open>startAt = 0\<close>, whatever counts the backend
  reported: both are the number of the comments retained.
\<close>

theorem C9_comment_counts_recomputed:
  assumes "f_comment (i_fields issue) = Some c"
  shows "jget (out_fields (format_issue_assemble G issue rls other)) ''comment'' =
     JObj [(''maxResults'', JNum (int (length (filter (\<lambda>com. \<not> truthy (get_prop com ''visibility'')) (cc_comments c))))),
           (''total'', JNum (int (length (filter (\<lambda>com. \<not> truthy (get_prop com ''visibility'')) (cc_comments c))))),
           (''startAt'', JNum 0),
           (''comments'', JArr (map copy_comment (filter (\<lambda>com. \<not> truthy (get_prop com ''visibility'')) (cc_comments c))))]"
  using comments_loop_counts [of "cc_comments c" "\<lparr>co_maxResults = 0, co_total = 0, co_startAt = 0, co_comments = []\<rparr>"]
  by (simp add: out_fields_eq jget_JObj assemble_get_comment [OF assms] cout_value_def comments_loop_comments)

theorem C9_comment_counts_recomputed_witness:
  "f_comment (i_fields ex_issue) = Some ex_comments \<and>
   cc_maxResults ex_comments = JNum 5 \<and> cc_total ex_comments = JNum 2 \<and>
   jget (out_fields (format_issue_assemble ex_globals ex_issue [] ex_other_issues)) ''comment'' =
     JObj [(''maxResults'', JNum 1), (''total'', JNum 1), (''startAt'', JNum 0),
           (''comments'', JArr [copy_comment ex_comment])]"
proof -
  have a: "f_comment (i_fields ex_issue) = Some ex_comments"
    by (simp add: ex_issue_def)
  show ?thesis
    using C9_comment_counts_recomputed [OF a, of ex_globals "[]" ex_other_issues] a
    by (simp add: ex_comments_def ex_comment_def get_prop_Cons get_prop_Nil)
qed



section \<open>Properties of parse_jira_markup\<close>

lemma step_forward:
  assumes "step M desc i l = Inr (l', i')" "0 < i"
  shows "prefix (l_out l) (l_out l') \<and> ps_heading (l_ps l') = ps_heading (l_ps l) \<and> 0 < i'"
  using assms
  by (auto simp: step_def fmt_bold_def fmt_italic_def fmt_code_def Let_def list_item_def
        commit_text_def push_def formats_push_def formats_pop_def
        split: if_splits pstate.splits sum.splits prod.splits)

lemma loop_forward:
  "loop M desc i l = Inr l' \<Longrightarrow> 0 < i \<Longrightarrow>
     prefix (l_out l) (l_out l') \<and> ps_heading (l_ps l') = ps_heading (l_ps l)"
proof (induction M desc i l rule: loop.induct)
  case (1 M desc i l)
  show ?case
  proof (cases "i < length desc")
    case False
    then have "l' = l" using "1.prems"(1) by (simp add: loop.simps [of M desc i l])
    then show ?thesis by simp
  next
    case True
    show ?thesis
    proof (cases "step M desc i l")
      case (Inl e)
      then show ?thesis using True "1.prems"(1) by (simp add: loop.simps [of M desc i l])
    next
      case (Inr p)
      obtain l1 i1 where p: "p = (l1, i1)" by (cases p)
      have st: "step M desc i l = Inr (l1, i1)" using Inr p by simp
      have r: "loop M desc i1 l1 = Inr l'"
        using True st "1.prems"(1) by (simp add: loop.simps [of M desc i l])
      from step_forward [OF st "1.prems"(2)]
      have a: "prefix (l_out l) (l_out l1)" and b: "ps_heading (l_ps l1) = ps_heading (l_ps l)"
        and c: "0 < i1" by simp_all
      from "1.IH" [OF True st refl r c]
      show ?thesis using a b by (auto intro: prefix_order.trans)
    qed
  qed
qed

lemma step_plain:
  assumes "l_state l = TEXT" "formats0 l = None" "0 < i" "i < length desc" "plain_char (desc ! i)"
  shows "step M desc i l = Inr (l\<lparr>l_text := l_text l @ [desc ! i]\<rparr>, i + 1)"
  using assms
  by (auto simp: step_def fmt_bold_def fmt_italic_def fmt_code_def Let_def plain_char_def)

lemma loop_plain:
  assumes "l_state l = TEXT" "formats0 l = None" "0 < i"
    "\<forall>j. i \<le> j \<and> j < length desc \<longrightarrow> plain_char (desc ! j)"
  shows "loop M desc i l = Inr (l\<lparr>l_text := l_text l @ drop i desc\<rparr>)"
  using assms
proof (induction "length desc - i" arbitrary: i l)
  case 0
  then show ?case by (simp add: loop.simps [of M desc i l])
next
  case (Suc n)
  then have lt: "i < length desc" by simp
  have pc: "plain_char (desc ! i)" using Suc.prems(4) lt by simp
  have st: "step M desc i l = Inr (l\<lparr>l_text := l_text l @ [desc ! i]\<rparr>, i + 1)"
    using step_plain [OF Suc.prems(1) Suc.prems(2) Suc.prems(3) lt pc] .
  have ih: "loop M desc (i + 1) (l\<lparr>l_text := l_text l @ [desc ! i]\<rparr>) =
      Inr ((l\<lparr>l_text := l_text l @ [desc ! i]\<rparr>)
              \<lparr>l_text := l_text (l\<lparr>l_text := l_text l @ [desc ! i]\<rparr>) @ drop (i + 1) desc\<rparr>)"
    using Suc.hyps(2) Suc.prems by (intro Suc.hyps(1)) (auto simp: formats0_def)
  show ?case
    using lt st ih by (simp add: loop.simps [of M desc i l] Cons_nth_drop_Suc)
qed


lemma heading_levels_iff: "[d] \<in> set HEADING_LEVELS \<longleftrightarrow> d \<in> set ''123456''"
  by (auto simp: HEADING_LEVELS_def)

lemma loop_heading_start:
  assumes "[d] \<in> set HEADING_LEVELS" "ps_list ps = None"
  shows "loop M (CHR ''h'' # d # CHR ''.'' # rest) 0 (init_locals ps) =
         loop M (CHR ''h'' # d # CHR ''.'' # rest) 4 (heading_open ps d)"
proof -
  let ?desc = "CHR ''h'' # d # CHR ''.'' # rest"
  have s1: "step M ?desc 0 (init_locals ps) = Inr ((init_locals ps)\<lparr>l_state := TEXT\<rparr>, 0)"
    by (simp add: step_def init_locals_def Let_def repeat_char_def char_at_def)
  have s2: "step M ?desc 0 ((init_locals ps)\<lparr>l_state := TEXT\<rparr>) = Inr (heading_open ps d, 4)"
    using assms
    by (simp add: step_def init_locals_def Let_def char_at_def commit_text_def push_def
          heading_open_def)
  show ?thesis
    by (simp add: loop.simps [of M ?desc 0 "init_locals ps"] s1
          loop.simps [of M ?desc 0 "(init_locals ps)\<lparr>l_state := TEXT\<rparr>"] s2)
qed

lemma finish_heading:
  assumes "ps_heading (l_ps l) = Some h"
  shows "finish M l =
     (concat (l_out l) @ (if l_text l \<noteq> [] then ent_encode M (l_text l) else []) @
        ''</'' @ h @ ''>'', l_ps l, l_log l)"
  using assms by (simp add: finish_def Let_def commit_text_def push_def)

lemma parse_heading_line:
  assumes "[d] \<in> set HEADING_LEVELS" "ps_list ps = None"
  shows "parse_jira_markup M (''h'' @ [d] @ ''.'' @ rest) ps =
     (case loop M (''h'' @ [d] @ ''.'' @ rest) 4 (heading_open ps d) of
        Inl e \<Rightarrow> Inl e | Inr l \<Rightarrow> Inr (finish M l))"
  using loop_heading_start [OF assms, of M rest]
  by (simp add: parse_jira_markup_def)

lemma heading_line_shape:
  assumes "[d] \<in> set HEADING_LEVELS" "ps_list ps = None"
    and r: "parse_jira_markup M (''h'' @ [d] @ ''.'' @ rest) ps = Inr (s, ps', lg)"
  shows "(\<exists>body. s = ''<h'' @ [d] @ ''>'' @ body @ ''</h'' @ [d] @ ''>'') \<and>
           ps_heading ps' = Some (''h'' @ [d])"
proof -
  let ?desc = "''h'' @ [d] @ ''.'' @ rest"
  from r obtain l' where l': "loop M ?desc 4 (heading_open ps d) = Inr l'"
    and f: "finish M l' = (s, ps', lg)"
    unfolding parse_heading_line [OF assms(1,2)] by (cases "loop M ?desc 4 (heading_open ps d)") auto
  have "0 < (4::nat)" by simp
  from loop_forward [OF l' this] have p: "prefix (l_out (heading_open ps d)) (l_out l')"
    and h: "ps_heading (l_ps l') = Some (''h'' @ [d])"
    by (simp_all add: heading_open_def)
  from p obtain more where m: "l_out l' = [''<h'' @ [d] @ ''>''] @ more"
    unfolding prefix_def by (auto simp: heading_open_def)
  have s: "s = ''<h'' @ [d] @ ''>'' @
      (concat more @ (if l_text l' \<noteq> [] then ent_encode M (l_text l') else [])) @ ''</h'' @ [d] @ ''>''"
    using f unfolding finish_heading [OF h] by (simp add: m)
  have ps': "ps' = l_ps l'" using f unfolding finish_heading [OF h] by simp
  show ?thesis using s ps' h by blast
qed

lemma heading_line_plain:
  assumes "[d] \<in> set HEADING_LEVELS" "ps_list ps = None"
    and pl: "\<forall>c \<in> set (drop 1 rest). plain_char c"
  shows "parse_jira_markup M (''h'' @ [d] @ ''.'' @ rest) ps =
             Inr (''<h'' @ [d] @ ''>'' @
                    (if drop 1 rest = [] then [] else ent_encode M (drop 1 rest)) @
                  ''</h'' @ [d] @ ''>'',
                  ps\<lparr>ps_heading := Some (''h'' @ [d])\<rparr>, [])"
proof -
  let ?desc = "''h'' @ [d] @ ''.'' @ rest"
  have a: "\<forall>j. 4 \<le> j \<and> j < length ?desc \<longrightarrow> plain_char (?desc ! j)"
  proof (intro allI impI)
    fix j assume j: "4 \<le> j \<and> j < length ?desc"
    then obtain k where k: "j = 4 + k" by (metis le_Suc_ex)
    have e: "?desc ! j = drop 1 rest ! k" using k j by simp
    have kl: "k < length (drop 1 rest)" using k j by simp
    from kl have "drop 1 rest ! k \<in> set (drop 1 rest)" by (rule nth_mem)
    with pl have "plain_char (drop 1 rest ! k)" by (rule bspec)
    then show "plain_char (?desc ! j)" using e by simp
  qed
  have hs: "l_state (heading_open ps d) = TEXT" "formats0 (heading_open ps d) = None"
    by (simp_all add: heading_open_def init_locals_def formats0_def)
  have "0 < (4::nat)" by simp
  from loop_plain [OF hs this a, of M]
  have lp: "loop M ?desc 4 (heading_open ps d) =
     Inr ((heading_open ps d)\<lparr>l_text := l_text (heading_open ps d) @ drop 4 ?desc\<rparr>)" .
  have h: "ps_heading (l_ps ((heading_open ps d)\<lparr>l_text := l_text (heading_open ps d) @ drop 4 ?desc\<rparr>)) = Some (''h'' @ [d])"
    by (simp add: heading_open_def)
  show ?thesis
    unfolding parse_heading_line [OF assms(1,2)] lp
    by (simp only: sum.case finish_heading [OF h]) (simp add: heading_open_def init_locals_def)
qed

text \<open>
  An open format is met only in a state other than LEADING_SPACES and after the first
  character of the line.
\<close>

lemma fmt_bold_result:
  assumes "fmt_bold M desc i l = (l', i')"
  shows "l_state l' = l_state l \<and> i < i'"
  using assms
  by (auto simp: fmt_bold_def fmt_italic_def fmt_code_def Let_def commit_text_def push_def
        formats_push_def formats_pop_def split: if_splits)

lemma step_leading_formats:
  assumes "step M desc i l = Inr (l', i')" "l_state l = LEADING_SPACES"
  shows "l_formats l' = l_formats l"
  using assms
  by (auto simp: step_def Let_def list_item_def commit_text_def push_def split: if_splits)

lemma step_not_leading:
  assumes "step M desc i l = Inr (l', i')" "l_state l \<noteq> LEADING_SPACES"
  shows "l_state l' \<noteq> LEADING_SPACES \<and> i < i'"
proof (cases "l_state l")
  case LEADING_SPACES
  then show ?thesis using assms(2) by simp
next
  case TEXT
  then show ?thesis
    using assms(1)
    by (auto simp: step_def Let_def commit_text_def push_def
          split: if_splits dest!: fmt_bold_result)
next
  case LINK_TITLE
  then show ?thesis
    using assms(1)
    by (auto simp: step_def Let_def push_def split: if_splits sum.splits prod.splits)
next
  case LINK_USER
  then show ?thesis
    using assms(1) by (auto simp: step_def Let_def push_def split: if_splits)
next
  case LINK_ATTACHMENT
  then show ?thesis
    using assms(1) by (auto simp: step_def Let_def push_def split: if_splits)
next
  case LINK_URL
  then show ?thesis
    using assms(1)
    by (auto simp: step_def Let_def push_def split: if_splits sum.splits prod.splits)
qed

lemma step_formats_inv:
  assumes st: "step M desc i l = Inr (l', i')"
    and inv: "l_formats l \<noteq> [] \<longrightarrow> l_state l \<noteq> LEADING_SPACES \<and> 0 < i"
  shows "l_formats l' \<noteq> [] \<longrightarrow> l_state l' \<noteq> LEADING_SPACES \<and> 0 < i'"
proof (cases "l_state l = LEADING_SPACES")
  case True
  then have "l_formats l = []" using inv by auto
  then have "l_formats l' = []" using step_leading_formats [OF st True] by simp
  then show ?thesis by simp
next
  case False
  from step_not_leading [OF st False] show ?thesis by auto
qed

lemma reach_formats_inv:
  "reach M desc ps i l \<Longrightarrow> l_formats l \<noteq> [] \<longrightarrow> l_state l \<noteq> LEADING_SPACES \<and> 0 < i"
proof (induction rule: reach.induct)
  case reach_init
  show ?case by (simp add: init_locals_def)
next
  case (reach_step i l l' i')
  from step_formats_inv [OF reach_step.hyps(3) reach_step.IH] show ?case .
qed

lemma step_code_first:
  assumes "formats0 l = Some CODE" "l_state l \<noteq> LEADING_SPACES" "i < length desc" "0 < i"
    "desc ! i = CHR ''*'' \<or> desc ! i = CHR ''_''"
  shows "case step M desc i l of
           Inl e \<Rightarrow> False
         | Inr (l', i') \<Rightarrow> l_formats l' = l_formats l \<and> l_out l' = l_out l \<and> i' = i + 1"
  using assms
  by (cases "l_state l")
     (auto simp: step_def fmt_bold_def fmt_italic_def fmt_code_def Let_def)

lemma ex_in_code_reached: "reach ex_modules ''{{a*b}}'' ex_ps 3 ex_in_code"
proof -
  let ?d = "''{{a*b}}''"
  have r0: "reach ex_modules ?d ex_ps 0 (init_locals ex_ps)" by (rule reach_init)
  have s0: "step ex_modules ?d 0 (init_locals ex_ps) = Inr ((init_locals ex_ps)\<lparr>l_state := TEXT\<rparr>, 0)"
    by code_simp
  have r1: "reach ex_modules ?d ex_ps 0 ((init_locals ex_ps)\<lparr>l_state := TEXT\<rparr>)"
    by (rule reach_step [OF r0 _ s0]) simp
  have s1: "step ex_modules ?d 0 ((init_locals ex_ps)\<lparr>l_state := TEXT\<rparr>) =
      Inr (ex_in_code\<lparr>l_text := []\<rparr>, 2)"
    by code_simp
  have r2: "reach ex_modules ?d ex_ps 2 (ex_in_code\<lparr>l_text := []\<rparr>)"
    by (rule reach_step [OF r1 _ s1]) simp
  have s2: "step ex_modules ?d 2 (ex_in_code\<lparr>l_text := []\<rparr>) = Inr (ex_in_code, 3)"
    by code_simp
  show ?thesis
    by (rule reach_step [OF r2 _ s2]) simp
qed


text \<open>
  The two examples of the specification, on the stand-in modules and the parser state
  before the first line; and the condition under which \<open>*\<close> opens bold: the character
  before it, if there is one, is not a letter.
\<close>

lemma parse_literal_asterisks:
  "parse_jira_markup ex_modules ''a*b*c'' ex_ps = Inr (''a*b*c'', ex_ps, [])"
  by code_simp

lemma parse_bold_word:
  "parse_jira_markup ex_modules ''a *b* c'' ex_ps = Inr (''a <b>b</b> c'', ex_ps, [])"
  by code_simp

lemma bold_opens_after_non_letter:
  assumes "fmt_bold M desc i l = (l', i')" "l_formats l' = l_formats l @ [BOLD]"
  shows "desc ! i = CHR ''*'' \<and> prefmtok (if i > 0 then Some (desc ! (i - 1)) else None)"
proof -
  have len: "length (l_formats l') = Suc (length (l_formats l))"
    using assms(2) by simp
  have la: "last (l_formats l') = BOLD"
    using assms(2) by simp
  show ?thesis
    using assms(1) len la
    by (auto simp: fmt_bold_def fmt_italic_def fmt_code_def Let_def commit_text_def push_def
          formats_push_def formats_pop_def
          split: if_splits)
qed

text \<open>
  What holds of every anchor: it begins with \<open>anchor_open\<close>; and when the URL parses,
  the href is a result of \<open>mod_ent.encode\<close>.
\<close>

lemma anchor_carries_rel_and_target:
  assumes "format_remote_link M link txt = Inr (lg, a)"
  shows "prefix anchor_open a"
  using assms by (auto simp: format_remote_link_def split: sum.splits prod.splits)

lemma subs_loop_encoded: "\<exists>x. subs_loop M u out ss = ent_encode M x"
  by (induction ss) (auto simp: Let_def split: option.splits)

lemma parsed_href_encoded:
  assumes "fix_url M link = Inr (lg, href)" "url_parse M (trim link) \<noteq> None"
  shows "\<exists>x. href = ent_encode M x"
  using assms subs_loop_encoded [of M]
  by (auto simp: fix_url_def Let_def split: option.splits if_splits)

section \<open>The claims about the markup and the links\<close>

text \<open>
  C4, as stated: at most one of bold and italic is open at a time, and a code span on
  top of the stack of open formats keeps \<open>*\<close> and \<open>_\<close> from being read as formatting.
  Both fail on the code. After \<open>*_\<close> the stack is BOLD, ITALIC: the stack nests the
  formats. After \<open>*{{\<close> the stack is BOLD, CODE with the code span on top, and the next
  \<open>*\<close> emits \<open></b>\<close>: the source tests \<open>formats[0]\<close>, the first format opened.
\<close>

theorem C4_two_formats_open_counterexample:
  "loop ex_modules ''*_'' 0 (init_locals ex_ps) =
     Inr \<lparr>l_text = [], l_formats = [BOLD, ITALIC], l_out = [''<b>'', ''<i>''], l_state = TEXT,
          l_link_title = [], l_link_url = [], l_leading_spaces = 0, l_ps = ex_ps, l_log = []\<rparr> \<and>
   loop ex_modules ''*{{'' 0 (init_locals ex_ps) =
     Inr \<lparr>l_text = [], l_formats = [BOLD, CODE], l_out = [''<b>'', ''<code>''], l_state = TEXT,
          l_link_title = [], l_link_url = [], l_leading_spaces = 0, l_ps = ex_ps, l_log = []\<rparr> \<and>
   parse_jira_markup ex_modules ''*{{*'' ex_ps = Inr (''<b><code></b>'', ex_ps, [])"
  by code_simp

text \<open>
  C4, amended: throughout the pass of parse_jira_markup over a line, while a code span
  is the first entry of the stack of open formats, a \<open>*\<close> or \<open>_\<close> is not read as
  formatting: the iteration does not raise, emits nothing, leaves the stack unchanged
  and moves on by one character. (Bold and italic may be open together.)
\<close>

theorem C4_code_first_suppresses_emphasis:
  assumes "reach M desc ps i l" "i < length desc" "formats0 l = Some CODE"
    "desc ! i = CHR ''*'' \<or> desc ! i = CHR ''_''"
  shows "case step M desc i l of
           Inl e \<Rightarrow> False
         | Inr (l', i') \<Rightarrow> l_formats l' = l_formats l \<and> l_out l' = l_out l \<and> i' = i + 1"
proof -
  have "l_formats l \<noteq> []" using assms(3) by (auto simp: formats0_def)
  with reach_formats_inv [OF assms(1)] have "l_state l \<noteq> LEADING_SPACES" "0 < i" by simp_all
  from step_code_first [OF assms(3) this(1) assms(2) this(2) assms(4)] show ?thesis .
qed

theorem C4_code_first_suppresses_emphasis_witness:
  "reach ex_modules ''{{a*b}}'' ex_ps 3 ex_in_code \<and> (3::nat) < length ''{{a*b}}'' \<and>
   formats0 ex_in_code = Some CODE \<and> ''{{a*b}}'' ! 3 = CHR ''*'' \<and>
   step ex_modules ''{{a*b}}'' 3 ex_in_code = Inr (ex_in_code\<lparr>l_text := ''a*''\<rparr>, 4)"
proof -
  have s: "step ex_modules ''{{a*b}}'' 3 ex_in_code = Inr (ex_in_code\<lparr>l_text := ''a*''\<rparr>, 4)"
    by code_simp
  show ?thesis
    using C4_code_first_suppresses_emphasis [OF ex_in_code_reached] s ex_in_code_reached
    by (simp add: ex_in_code_def formats0_def)
qed

text \<open>
  C5. The two examples hold (parse_literal_asterisks, parse_bold_word), and \<open>*\<close> opens
  bold only after a character that is not a letter (bold_opens_after_non_letter). The
  last part, that once open the same symbol always closes it, fails on the code: in
  \<open>_*a*_\<close> the second \<open>*\<close> is emitted as text and bold is never closed, because the
  source compares \<open>formats[0]\<close>, here ITALIC, where the top of the stack is meant.
\<close>

theorem C5_nested_bold_never_closed:
  "parse_jira_markup ex_modules ''_*a*_'' ex_ps = Inr (''<i><b>a*</i>'', ex_ps, [])"
  by code_simp

text \<open>
  C6, as stated: when the URL does not parse, the escaped display text is returned
  without an anchor element. This fails on the code: fix_url returns the trimmed URL and
  format_remote_link wraps it in an anchor as it does every URL.
\<close>

theorem C6_unparsed_url_still_anchor_counterexample:
  "url_parse ex_modules (trim ''http://%@x/'') = None \<and>
   format_remote_link ex_modules ''http://%@x/'' ''text'' =
     Inr ([UrlParseError ''http://%@x/''],
          anchor_open @ ''http://%@x/'' @ [CHR 0x22] @ ''>text</a>'') \<and>
   anchor_open @ ''http://%@x/'' @ [CHR 0x22] @ ''>text</a>'' \<noteq> ent_encode ex_modules ''text''"
  by code_simp

text \<open>
  C6, amended: when the URL does not parse, format_remote_link does not raise: it logs
  the failure and returns an anchor element, with the \<open>rel\<close> and \<open>target\<close> attributes,
  around the display text as the caller passed it; and the parser, at the \<open>]\<close> that
  ends such a link, goes back to the TEXT state at the next character and keeps the log.
\<close>

theorem C6_unparsed_url_logged_anchor:
  assumes "url_parse M (trim link) = None"
  shows "(case format_remote_link M link txt of
           Inl e \<Rightarrow> False
         | Inr (lg, a) \<Rightarrow>
             lg = [UrlParseError (trim link)] \<and> prefix anchor_open a \<and>
             suffix ([CHR 0x22] @ ''>'' @ txt @ ''</a>'') a)
       \<and> (l_state l = LINK_URL \<and> i < length desc \<and> desc ! i = CHR '']'' \<and> l_link_url l = link \<longrightarrow>
           (case step M desc i l of
              Inl e \<Rightarrow> False
            | Inr (l', i') \<Rightarrow>
                l_state l' = TEXT \<and> i' = i + 1 \<and>
                l_log l' = l_log l @ [UrlParseError (trim link)]))"
  using assms
  by (auto simp: format_remote_link_def fix_url_def Let_def step_def push_def suffix_def)

theorem C6_unparsed_url_logged_anchor_witness:
  "url_parse ex_modules (trim ''http://%@x/'') = None \<and>
   format_remote_link ex_modules ''http://%@x/'' ''text'' =
     Inr ([UrlParseError ''http://%@x/''],
          anchor_open @ ''http://%@x/'' @ [CHR 0x22] @ ''>text</a>'')"
proof -
  have a: "url_parse ex_modules (trim ''http://%@x/'') = None"
    by (simp add: ex_modules_def url_parse_throws_def)
  have t: "trim ''http://%@x/'' = ''http://%@x/''"
    by (simp add: trim_def js_space_def)
  show ?thesis
    using C6_unparsed_url_logged_anchor [OF a, of "''text''" ex_in_code 0 "'']''"] a
    by (simp add: format_remote_link_def fix_url_def Let_def t)
qed

text \<open>
  C7. Every anchor of format_remote_link begins with \<open>anchor_open\<close>, which carries
  \<open>rel="noopener noreferrer"\<close> and \<open>target="_blank"\<close>. The href is the result of
  \<open>mod_ent.encode\<close> on every path of fix_url but one: when the URL does not parse, the
  trimmed URL is returned as it is, here with its double quote and angle brackets.
\<close>

theorem C7_unparsed_href_not_encoded:
  "format_remote_link ex_modules (''http://%@x/'' @ [CHR 0x22] @ ''><script>'') ''text'' =
     Inr ([UrlParseError (''http://%@x/'' @ [CHR 0x22] @ ''><script>'')],
          anchor_open @ ''http://%@x/'' @ [CHR 0x22] @ ''><script>'' @ [CHR 0x22] @ ''>text</a>'') \<and>
   ent_encode ex_modules (''http://%@x/'' @ [CHR 0x22] @ ''><script>'') =
     ''http://%@x/&#34;&#62;&#60;script&#62;''"
  by code_simp

text \<open>
  C8, as stated: on a line that begins with \<open>h\<close>, a digit from 1 to 6 and \<open>.\<close>, the
  heading is opened, exactly the three marker characters are consumed and the heading is
  closed at the end of the line. This fails on the code in three ways: the character
  after the marker is consumed too (\<open>i += 3\<close> and the loop's \<open>i++\<close>); while a list is
  open the line closes the list and is ordinary text; and a CR in the line raises.
\<close>

theorem C8_heading_counterexample:
  "parse_jira_markup ex_modules ''h1.Title'' ex_ps =
     Inr (''<h1>itle</h1>'', ex_ps\<lparr>ps_heading := Some ''h1''\<rparr>, []) \<and>
   parse_jira_markup ex_modules ''h1. Title'' (ex_ps\<lparr>ps_list := Some ''ul''\<rparr>) =
     Inr (''</li></ul>h1. Title'', ex_ps, []) \<and>
   parse_jira_markup ex_modules (''h1. Title'' @ [CHR 0x0D]) ex_ps = Inl AssertionError"
  by code_simp

text \<open>
  C8, amended: on a line that begins with \<open>h\<close>, a digit \<open>d\<close> from 1 to 6 and \<open>.\<close>,
  parsed while no list is open, parse_jira_markup opens the heading \<open><hd>\<close>, consumes
  the marker and the one character after it, and goes on in the TEXT state at the fifth
  character. Whenever it returns, it returns \<open><hd>\<close>, then the heading content, then
  \<open></hd>\<close>, and leaves the heading level in the parser state. When the characters
  from the fifth on are plain (none of \<open>[ * _ {\<close>, CR, LF), the parser returns, and the
  content is exactly their encoding.
\<close>

theorem C8_heading_line:
  assumes "[d] \<in> set HEADING_LEVELS" "ps_list ps = None"
  shows "parse_jira_markup M (''h'' @ [d] @ ''.'' @ rest) ps =
           (case loop M (''h'' @ [d] @ ''.'' @ rest) 4 (heading_open ps d) of
              Inl e \<Rightarrow> Inl e
            | Inr l \<Rightarrow> Inr (finish M l))
       \<and> (parse_jira_markup M (''h'' @ [d] @ ''.'' @ rest) ps = Inr (s, ps', lg) \<longrightarrow>
           (\<exists>body. s = ''<h'' @ [d] @ ''>'' @ body @ ''</h'' @ [d] @ ''>'') \<and>
           ps_heading ps' = Some (''h'' @ [d]))
       \<and> ((\<forall>c \<in> set (drop 1 rest). plain_char c) \<longrightarrow>
           parse_jira_markup M (''h'' @ [d] @ ''.'' @ rest) ps =
             Inr (''<h'' @ [d] @ ''>'' @
                    (if drop 1 rest = [] then [] else ent_encode M (drop 1 rest)) @
                  ''</h'' @ [d] @ ''>'',
                  ps\<lparr>ps_heading := Some (''h'' @ [d])\<rparr>, []))"
  using parse_heading_line [OF assms] heading_line_shape [OF assms]
    heading_line_plain [OF assms]
  by blast

theorem C8_heading_line_witness:
  "[CHR ''2''] \<in> set HEADING_LEVELS \<and> ps_list ex_ps = None \<and>
   parse_jira_markup ex_modules ''h2. Steps'' ex_ps =
     Inr (''<h2>Steps</h2>'', ex_ps\<lparr>ps_heading := Some ''h2''\<rparr>, [])"
  using C8_heading_line [of "CHR ''2''" ex_ps ex_modules "'' Steps''",
      THEN conjunct2, THEN conjunct2]
  by (simp add: HEADING_LEVELS_def ex_ps_def plain_char_def ex_modules_def ent_numeric_def
        ent_char_def)

end
